theory Spec2Isabelle
  imports Main "HOL-Library.Word"
begin

section \<open>Values of the JavaScript runtime\<close>

text \<open>
  The adapter of \<^verbatim>\<open>src/index.js\<close> wraps a plugin of the old, event-driven ledger plugin
  interface and offers the promise-based one. This theory embeds its state (the correlation
  table \<^verbatim>\<open>this.transfers\<close>, the handler slot \<^verbatim>\<open>this._transferHandler\<close>), the promises it
  creates and the calls it makes on its collaborators.

  A \<^verbatim>\<open>Buffer\<close> is a list of bytes. The errors the code raises are values of \<open>error\<close>; a
  first-order JavaScript value (an opaque amount, condition, expiry, custom object, a
  rejection reason, an error object) is a \<open>jsval\<close>.
\<close>

type_synonym bytes = "8 word list"

datatype error =
    TypeError
  | Error string
  | TransferHandlerAlreadyRegisteredError string
  | InvalidFieldsError string
  | InterledgerRejectionError string string
  | PacketError

datatype jsval =
    JUndefined
  | JNull
  | JBool bool
  | JNum int
  | JStr string
  | JBuf bytes
  | JObj "(string \<times> jsval) list"
  | JErr error

text \<open>JavaScript's truthiness, as \<^verbatim>\<open>if (x)\<close> and \<^verbatim>\<open>!x\<close> read a value.\<close>

fun truthy :: "jsval \<Rightarrow> bool" where
  "truthy JUndefined = False"
| "truthy JNull = False"
| "truthy (JBool b) = b"
| "truthy (JNum n) = (n \<noteq> 0)"
| "truthy (JStr s) = (s \<noteq> [])"
| "truthy (JBuf b) = True"
| "truthy (JObj fs) = True"
| "truthy (JErr e) = True"

section \<open>Base64 as \<^verbatim>\<open>Buffer\<close> computes it\<close>

text \<open>
  \<^verbatim>\<open>buf.toString('base64')\<close> writes the standard alphabet with padding.
  \<^verbatim>\<open>Buffer.from(str, 'base64')\<close> reads leniently: it stops at the first \<^verbatim>\<open>=\<close>, skips every
  character outside the alphabets, accepts the URL-safe characters \<^verbatim>\<open>-\<close> and \<^verbatim>\<open>_\<close>, and
  drops a trailing group that does not fill a byte.
\<close>

definition base64_alphabet :: string where
  "base64_alphabet = ''ABCDEFGHIJKLMNOPQRSTUVWXYZabcdefghijklmnopqrstuvwxyz0123456789+/''"

definition base64_char :: "nat \<Rightarrow> char" where
  "base64_char n = base64_alphabet ! n"

definition unbase64 :: "char \<Rightarrow> nat option" where
  "unbase64 c =
     (if c = CHR ''-'' then Some 62
      else if c = CHR ''_'' then Some 63
      else map_of (zip base64_alphabet [0..<64]) c)"

fun toString_base64 :: "bytes \<Rightarrow> string" where
  "toString_base64 [] = []"
| "toString_base64 [a] =
     [base64_char (unat a div 4), base64_char ((unat a mod 4) * 16), CHR ''='', CHR ''='']"
| "toString_base64 [a, b] =
     [base64_char (unat a div 4), base64_char ((unat a mod 4) * 16 + unat b div 16),
      base64_char ((unat b mod 16) * 4), CHR ''='']"
| "toString_base64 (a # b # c # rest) =
     base64_char (unat a div 4) # base64_char ((unat a mod 4) * 16 + unat b div 16) #
     base64_char ((unat b mod 16) * 4 + unat c div 64) # base64_char (unat c mod 64) #
     toString_base64 rest"

fun pack_sextets :: "nat list \<Rightarrow> bytes" where
  "pack_sextets (s1 # s2 # s3 # s4 # rest) =
     of_nat (s1 * 4 + s2 div 16) # of_nat ((s2 mod 16) * 16 + s3 div 4) #
     of_nat ((s3 mod 4) * 64 + s4) # pack_sextets rest"
| "pack_sextets [s1, s2, s3] = [of_nat (s1 * 4 + s2 div 16), of_nat ((s2 mod 16) * 16 + s3 div 4)]"
| "pack_sextets [s1, s2] = [of_nat (s1 * 4 + s2 div 16)]"
| "pack_sextets [s1] = []"
| "pack_sextets [] = []"

definition sextets_of :: "string \<Rightarrow> nat list" where
  "sextets_of s = List.map_filter unbase64 (takeWhile (\<lambda>c. c \<noteq> CHR ''='') s)"

definition from_base64 :: "string \<Rightarrow> bytes" where
  "from_base64 s = pack_sextets (sextets_of s)"

text \<open>
  The envelope of a transfer or of a fulfillment event of the old interface is a serialised
  packet: base64 text, or a \<^verbatim>\<open>Buffer\<close> (what the adapter itself writes); a transfer may
  carry none, and the field is then \<^verbatim>\<open>undefined\<close>. Outside the interface the field may hold
  an array, an array-like object or the JSON image of a \<^verbatim>\<open>Buffer\<close>, given here by the
  bytes that \<^verbatim>\<open>Buffer.from\<close> makes of it, or any other value, which \<^verbatim>\<open>Buffer.from\<close> refuses.
\<close>

datatype ilp_value =
    IlpAbsent
  | IlpText string
  | IlpBuffer bytes
  | IlpArrayLike bytes
  | IlpOther

text \<open>
  \<^verbatim>\<open>Buffer.from(value, 'base64')\<close>: text is decoded, a \<^verbatim>\<open>Buffer\<close> is copied and an array-like
  object is read (the encoding is ignored), and \<^verbatim>\<open>undefined\<close> or a value of another kind
  raises a \<^verbatim>\<open>TypeError\<close>.
\<close>

definition Buffer_from :: "ilp_value \<Rightarrow> error + bytes" where
  "Buffer_from v =
     (case v of
        IlpText s \<Rightarrow> Inr (from_base64 s)
      | IlpBuffer b \<Rightarrow> Inr b
      | IlpArrayLike b \<Rightarrow> Inr b
      | IlpAbsent \<Rightarrow> Inl TypeError
      | IlpOther \<Rightarrow> Inl TypeError)"

section \<open>The delivery address\<close>

text \<open>
  \<^verbatim>\<open>startsWith(prefix, subject)\<close> compares \<^verbatim>\<open>subject.substring(0, prefix.length)\<close> with the
  prefix. \<^verbatim>\<open>str.split('.')\<close> cuts a string at every dot and never returns an empty array.
\<close>

definition startsWith :: "string \<Rightarrow> string \<Rightarrow> bool" where
  "startsWith prefix subject \<longleftrightarrow> take (length prefix) subject = prefix"

fun split_on :: "char \<Rightarrow> string \<Rightarrow> string list" where
  "split_on sep [] = [[]]"
| "split_on sep (c # cs) =
     (if c = sep then [] # split_on sep cs
      else (case split_on sep cs of
              [] \<Rightarrow> [[c]]
            | w # ws \<Rightarrow> (c # w) # ws))"

record info =
  prefix :: string
  connectors :: "string list"

text \<open>
  Lines 75 to 83 of \<^verbatim>\<open>sendTransfer\<close>: the variable \<^verbatim>\<open>to\<close>. \<open>None\<close> is \<^verbatim>\<open>undefined\<close>, the value
  of \<^verbatim>\<open>connectors[0]\<close> on an empty array. Element 0 of an empty array would be
  \<^verbatim>\<open>undefined\<close>, which \<^verbatim>\<open>+\<close> appends as the text \<^verbatim>\<open>undefined\<close>.
\<close>

definition to_address :: "info \<Rightarrow> string \<Rightarrow> string option" where
  "to_address i destination =
     (if startsWith (prefix i) destination
      then Some (prefix i @
             (case split_on CHR ''.'' (drop (length (prefix i)) destination) of
                [] \<Rightarrow> ''undefined''
              | seg # _ \<Rightarrow> seg))
      else (case connectors i of [] \<Rightarrow> None | c # _ \<Rightarrow> Some c))"

text \<open>
  The words of the specification: the first dot-separated segment of a string is what
  precedes its first dot.
\<close>

definition first_segment :: "string \<Rightarrow> string" where
  "first_segment s = takeWhile (\<lambda>c. c \<noteq> CHR ''.'') s"

section \<open>The collaborators\<close>

text \<open>
  The envelope codec (the library \<^verbatim>\<open>ilp-packet\<close>) is not part of the adapter: the
  functions of the adapter take its four functions as a parameter, and what they do with an
  envelope does not depend on its format. Serialising returns a \<^verbatim>\<open>Buffer\<close>; deserialising
  raises on a malformed envelope. The payload of an envelope travels as base64 text. The
  adapter hands the envelope of a fulfillment event to the codec as it received it. The
  format of the library itself is modelled further down, for the round trip.
\<close>

record ilpPayment =
  account :: string
  payment_amount :: string
  payment_data :: string

record ilp_packet =
  serializeIlpPayment :: "ilpPayment \<Rightarrow> bytes"
  deserializeIlpPayment :: "bytes \<Rightarrow> error + ilpPayment"
  serializeIlpFulfillment :: "string \<Rightarrow> bytes"
  deserializeIlpFulfillment :: "ilp_value \<Rightarrow> error + string"

text \<open>The transfer of the old interface, as \<^verbatim>\<open>sendTransfer\<close> builds it in lines 96 to 105.\<close>

record lpi1Transfer =
  lpi1_id :: string
  lpi1_amount :: jsval
  lpi1_to :: string
  lpi1_ledger :: string
  lpi1_ilp :: ilp_value
  lpi1_executionCondition :: jsval
  lpi1_expiresAt :: jsval
  lpi1_custom :: jsval

text \<open>
  The transfer of the new interface. Line 110 calls the property \<^verbatim>\<open>sendTransfer\<close> of this
  object: \<open>sendTransfer_method\<close> is \<open>None\<close> when the object has no such property, and
  otherwise tells, for the record passed, whether the call fails (it throws, or the promise
  it returns rejects) and with what.
\<close>

record transfer =
  amount :: jsval
  destination :: string
  data :: bytes
  condition :: jsval
  expiry :: jsval
  custom :: jsval
  sendTransfer_method :: "(lpi1Transfer \<Rightarrow> jsval option) option"

record fulfill =
  fulfillment :: jsval
  fulfill_data :: bytes

text \<open>
  A transfer handler is an asynchronous function: it throws, or returns a promise that
  rejects, resolves with \<^verbatim>\<open>{fulfillment, data}\<close>, or never settles.
\<close>

datatype handler_result =
    Throws jsval
  | Rejects jsval
  | Resolves fulfill
  | NeverSettles

datatype handler_val =
    NotFunction jsval
  | Function "transfer \<Rightarrow> handler_result"

fun is_function :: "handler_val \<Rightarrow> bool" where
  "is_function (Function h) = True"
| "is_function (NotFunction v) = False"

fun truthy_handler :: "handler_val \<Rightarrow> bool" where
  "truthy_handler (Function h) = True"
| "truthy_handler (NotFunction v) = truthy v"

text \<open>
  The wrapped plugin: what \<^verbatim>\<open>getInfo()\<close> returns, and whether \<^verbatim>\<open>fulfillCondition\<close> throws
  for a transfer identifier. Every call the adapter makes is recorded, with its receiver.
\<close>

record oldPlugin =
  getInfo :: info
  fulfillCondition_throws :: "string \<Rightarrow> jsval option"

datatype call =
    OldPlugin_sendTransfer lpi1Transfer
  | OldPlugin_fulfillCondition string jsval bytes
  | OldPlugin_rejectIncomingTransfer lpi1Transfer jsval
  | Transfer_sendTransfer lpi1Transfer

section \<open>The adapter\<close>

text \<open>
  A promise is pending until the first call of one of its two continuations; later calls
  change nothing. The state keeps every promise the adapter created, and a log of every
  call of a continuation. An entry \<^verbatim>\<open>{resolve, reject}\<close> of \<^verbatim>\<open>this.transfers\<close> is the index
  of the promise whose continuations it holds.
\<close>

datatype promise = Pending | Resolved fulfill | Rejected jsval

datatype settlement = Resolve fulfill | Reject jsval

record plugin =
  transfers :: "string \<rightharpoonup> nat"
  transferHandler :: handler_val
  promises :: "promise list"
  settlements :: "(nat \<times> settlement) list"
  calls :: "call list"

text \<open>The constructor, lines 31 to 35: \<^verbatim>\<open>_transferHandler\<close> is not assigned.\<close>

definition new_Plugin :: plugin where
  "new_Plugin =
     \<lparr>transfers = Map.empty, transferHandler = NotFunction JUndefined, promises = [],
      settlements = [], calls = []\<rparr>"

fun settled :: "settlement \<Rightarrow> promise" where
  "settled (Resolve r) = Resolved r"
| "settled (Reject e) = Rejected e"

definition promise_at :: "plugin \<Rightarrow> nat \<Rightarrow> promise option" where
  "promise_at s p = (if p < length (promises s) then Some (promises s ! p) else None)"

definition settle :: "nat \<Rightarrow> settlement \<Rightarrow> plugin \<Rightarrow> plugin" where
  "settle p v s =
     s\<lparr>promises :=
         (if promise_at s p = Some Pending then (promises s)[p := settled v] else promises s),
       settlements := settlements s @ [(p, v)]\<rparr>"

definition called :: "call \<Rightarrow> plugin \<Rightarrow> plugin" where
  "called c s = s\<lparr>calls := calls s @ [c]\<rparr>"

text \<open>
  \<^verbatim>\<open>this.transfers\<close> is created as \<^verbatim>\<open>{}\<close>, so reading \<^verbatim>\<open>this.transfers[id]\<close> finds the entry
  stored under \<^verbatim>\<open>id\<close>, and otherwise what \<^verbatim>\<open>Object.prototype\<close> has under that name: a
  function, or for \<^verbatim>\<open>__proto__\<close> the prototype itself. Such a value is truthy and has
  neither a \<^verbatim>\<open>resolve\<close> nor a \<^verbatim>\<open>reject\<close>.
\<close>

definition Object_prototype_names :: "string list" where
  "Object_prototype_names =
     [''constructor'', ''__defineGetter__'', ''__defineSetter__'', ''hasOwnProperty'',
      ''__lookupGetter__'', ''__lookupSetter__'', ''isPrototypeOf'', ''propertyIsEnumerable'',
      ''toString'', ''valueOf'', ''__proto__'', ''toLocaleString'']"

datatype lookup = Missing | Inherited | Entry nat

definition transfers_lookup :: "plugin \<Rightarrow> string \<Rightarrow> lookup" where
  "transfers_lookup s k =
     (case transfers s k of
        Some p \<Rightarrow> Entry p
      | None \<Rightarrow> if k \<in> set Object_prototype_names then Inherited else Missing)"

subsection \<open>\<^verbatim>\<open>sendTransfer\<close>, lines 70 to 113\<close>

definition outgoing_ilp :: "ilp_packet \<Rightarrow> transfer \<Rightarrow> bytes" where
  "outgoing_ilp c t =
     serializeIlpPayment c
       \<lparr>account = destination t, payment_amount = ''0'',
        payment_data = toString_base64 (data t)\<rparr>"

definition lpi1Transfer_of :: "ilp_packet \<Rightarrow> info \<Rightarrow> string \<Rightarrow> string \<Rightarrow> transfer \<Rightarrow> lpi1Transfer" where
  "lpi1Transfer_of c i uid to t =
     \<lparr>lpi1_id = uid, lpi1_amount = amount t, lpi1_to = to, lpi1_ledger = prefix i,
      lpi1_ilp = IlpBuffer (outgoing_ilp c t), lpi1_executionCondition = condition t,
      lpi1_expiresAt = expiry t, lpi1_custom = custom t\<rparr>"

text \<open>
  \<open>uid\<close> is what \<^verbatim>\<open>uuid()\<close> returns. \<open>Inl\<close> is the error the asynchronous function rejects
  with before it has created its promise; \<open>Inr p\<close> is the promise returned. Inside
  \<^verbatim>\<open>new Promise\<close> the entry is stored first; then \<^verbatim>\<open>transfer.sendTransfer\<close> is called, and what
  that call throws, or what its promise rejects with, goes to \<^verbatim>\<open>reject\<close>. The test \<^verbatim>\<open>!to\<close>
  holds of \<^verbatim>\<open>undefined\<close> and of the empty string.
\<close>

definition sendTransfer ::
  "ilp_packet \<Rightarrow> oldPlugin \<Rightarrow> string \<Rightarrow> transfer \<Rightarrow> plugin \<Rightarrow> (error + nat) \<times> plugin" where
  "sendTransfer c old uid t s =
     (case to_address (getInfo old) (destination t) of
        None \<Rightarrow> (Inl (Error ''No valid destination: no connector and destination is not local''), s)
      | Some to \<Rightarrow>
          if to = []
          then (Inl (Error ''No valid destination: no connector and destination is not local''), s)
          else
            let lpi1 = lpi1Transfer_of c (getInfo old) uid to t;
                p = length (promises s);
                s1 = s\<lparr>promises := promises s @ [Pending], transfers := (transfers s)(uid \<mapsto> p)\<rparr>
            in (case sendTransfer_method t of
                  None \<Rightarrow> (Inr p, settle p (Reject (JErr TypeError)) s1)
                | Some m \<Rightarrow>
                    (case m lpi1 of
                       None \<Rightarrow> (Inr p, called (Transfer_sendTransfer lpi1) s1)
                     | Some e \<Rightarrow> (Inr p, settle p (Reject e) (called (Transfer_sendTransfer lpi1) s1)))))"

subsection \<open>Handler registration, lines 115 to 129\<close>

definition registerTransferHandler :: "handler_val \<Rightarrow> plugin \<Rightarrow> error option \<times> plugin" where
  "registerTransferHandler handler s =
     (if truthy_handler (transferHandler s)
      then (Some (TransferHandlerAlreadyRegisteredError ''requestHandler is already registered''), s)
      else if \<not> is_function handler
      then (Some (InvalidFieldsError ''requestHandler must be a function''), s)
      else (None, s\<lparr>transferHandler := handler\<rparr>))"

definition deregisterTransferHandler :: "plugin \<Rightarrow> plugin" where
  "deregisterTransferHandler s = s\<lparr>transferHandler := NotFunction JNull\<rparr>"

subsection \<open>The handlers of the outgoing events, lines 151 to 189\<close>

text \<open>
  The first component is what the handler throws, if it throws. With an inherited value
  for the identifier the test of the first line passes, the continuation taken from it is
  \<^verbatim>\<open>undefined\<close>, and calling it is a \<^verbatim>\<open>TypeError\<close>; the fulfillment handler reads the
  envelope before it calls.
\<close>

definition handleOutgoingFulfill ::
  "ilp_packet \<Rightarrow> lpi1Transfer \<Rightarrow> jsval \<Rightarrow> ilp_value \<Rightarrow> plugin \<Rightarrow> error option \<times> plugin" where
  "handleOutgoingFulfill c t f ilp s =
     (case transfers_lookup s (lpi1_id t) of
        Missing \<Rightarrow> (None, s)
      | Inherited \<Rightarrow>
          (case deserializeIlpFulfillment c ilp of
             Inl e \<Rightarrow> (Some e, s)
           | Inr d \<Rightarrow> (Some TypeError, s))
      | Entry p \<Rightarrow>
          (case deserializeIlpFulfillment c ilp of
             Inl e \<Rightarrow> (Some e, s)
           | Inr d \<Rightarrow>
               (None, settle p (Resolve \<lparr>fulfillment = f, fulfill_data = from_base64 d\<rparr>) s)))"

definition handleOutgoingReject :: "lpi1Transfer \<Rightarrow> jsval \<Rightarrow> plugin \<Rightarrow> error option \<times> plugin" where
  "handleOutgoingReject t reason s =
     (case transfers_lookup s (lpi1_id t) of
        Missing \<Rightarrow> (None, s)
      | Inherited \<Rightarrow> (Some TypeError, s)
      | Entry p \<Rightarrow> (None, settle p (Reject reason) s))"

definition handleOutgoingCancel :: "lpi1Transfer \<Rightarrow> jsval \<Rightarrow> plugin \<Rightarrow> error option \<times> plugin" where
  "handleOutgoingCancel t reason s =
     (case transfers_lookup s (lpi1_id t) of
        Missing \<Rightarrow> (None, s)
      | Inherited \<Rightarrow> (Some TypeError, s)
      | Entry p \<Rightarrow> (None, settle p (Reject reason) s))"

subsection \<open>\<^verbatim>\<open>_handleIncomingPrepare\<close>, lines 191 to 230\<close>

text \<open>Lines 192 to 202, outside the asynchronous block: what they throw leaves the handler.\<close>

definition incoming_transfer :: "ilp_packet \<Rightarrow> lpi1Transfer \<Rightarrow> error + transfer" where
  "incoming_transfer c l =
     (case Buffer_from (lpi1_ilp l) of
        Inl e \<Rightarrow> Inl e
      | Inr b \<Rightarrow>
          (case deserializeIlpPayment c b of
             Inl e \<Rightarrow> Inl e
           | Inr pay \<Rightarrow>
               Inr \<lparr>amount = lpi1_amount l, destination = account pay,
                    data = from_base64 (payment_data pay),
                    condition = lpi1_executionCondition l, expiry = lpi1_expiresAt l,
                    custom = lpi1_custom l, sendTransfer_method = None\<rparr>))"

text \<open>
  Lines 204 to 221, the asynchronous block: the calls it makes, and how its promise ends
  (\<open>None\<close>: it never settles; \<open>Some (Inl e)\<close>: it rejects with \<open>e\<close>; \<open>Some (Inr ())\<close>: it
  resolves). A slot that is truthy and not a function cannot be called.
\<close>

definition incoming_block ::
  "ilp_packet \<Rightarrow> oldPlugin \<Rightarrow> lpi1Transfer \<Rightarrow> transfer \<Rightarrow> handler_val \<Rightarrow>
   call list \<times> (jsval + unit) option" where
  "incoming_block c old l t h =
     (if \<not> truthy_handler h
      then ([], Some (Inl (JErr (InterledgerRejectionError ''F00'' ''No transfer handler registered''))))
      else
        (case h of
           NotFunction v \<Rightarrow> ([], Some (Inl (JErr TypeError)))
         | Function handler \<Rightarrow>
             (case handler t of
                Throws e \<Rightarrow> ([], Some (Inl e))
              | Rejects e \<Rightarrow> ([], Some (Inl e))
              | NeverSettles \<Rightarrow> ([], None)
              | Resolves r \<Rightarrow>
                  let ilp = serializeIlpFulfillment c (toString_base64 (fulfill_data r))
                  in ([OldPlugin_fulfillCondition (lpi1_id l) (fulfillment r) ilp],
                      (case fulfillCondition_throws old (lpi1_id l) of
                         None \<Rightarrow> Some (Inr ())
                       | Some e \<Rightarrow> Some (Inl e))))))"

text \<open>
  Lines 222 to 229, the \<^verbatim>\<open>catch\<close>. Line 223 reads \<^verbatim>\<open>err.stack\<close> whenever \<^verbatim>\<open>typeof err\<close> is
  \<^verbatim>\<open>object\<close>, which it is for \<^verbatim>\<open>null\<close> too, and there the read throws. Line 224 writes the
  stack, or else the value itself, into a template text; that conversion throws for an
  object whose own \<^verbatim>\<open>toString\<close> cannot be called (no \<open>jsval\<close> can be called). An object of
  \<open>jsval\<close> has its fields as own properties over \<^verbatim>\<open>Object.prototype\<close>; an error object has a
  stack text. Only when both lines pass is the rejection submitted, with the empty object
  as reason.
\<close>

fun typeof_object :: "jsval \<Rightarrow> bool" where
  "typeof_object JNull = True"
| "typeof_object (JBuf b) = True"
| "typeof_object (JObj fs) = True"
| "typeof_object (JErr e) = True"
| "typeof_object v = False"

fun stack_of :: "jsval \<Rightarrow> jsval" where
  "stack_of (JObj fs) = (case map_of fs ''stack'' of None \<Rightarrow> JUndefined | Some v \<Rightarrow> v)"
| "stack_of (JErr e) = JStr ''Error''"
| "stack_of v = JUndefined"

fun template_throws :: "jsval \<Rightarrow> bool" where
  "template_throws (JObj fs) = (map_of fs ''toString'' \<noteq> None)"
| "template_throws v = False"

definition errInfo :: "jsval \<Rightarrow> jsval" where
  "errInfo err = (if typeof_object err \<and> truthy (stack_of err) then stack_of err else err)"

definition catch_throws :: "jsval \<Rightarrow> bool" where
  "catch_throws err \<longleftrightarrow> err = JNull \<or> template_throws (errInfo err)"

definition incoming_catch :: "lpi1Transfer \<Rightarrow> (jsval + unit) option \<Rightarrow> call list" where
  "incoming_catch l outcome =
     (case outcome of
        Some (Inl err) \<Rightarrow>
          if catch_throws err then [] else [OldPlugin_rejectIncomingTransfer l (JObj [])]
      | _ \<Rightarrow> [])"

text \<open>
  The block reads the state of the adapter only before its first suspension, so the model
  runs it to its end within the event.
\<close>

definition handleIncomingPrepare ::
  "ilp_packet \<Rightarrow> oldPlugin \<Rightarrow> lpi1Transfer \<Rightarrow> plugin \<Rightarrow> error option \<times> plugin" where
  "handleIncomingPrepare c old l s =
     (case incoming_transfer c l of
        Inl e \<Rightarrow> (Some e, s)
      | Inr t \<Rightarrow>
          (case incoming_block c old l t (transferHandler s) of
             (cs, outcome) \<Rightarrow> (None, s\<lparr>calls := calls s @ cs @ incoming_catch l outcome\<rparr>)))"

subsection \<open>The operations of the adapter\<close>

datatype operation =
    SendTransfer string transfer
  | RegisterTransferHandler handler_val
  | DeregisterTransferHandler
  | OutgoingFulfill lpi1Transfer jsval ilp_value
  | OutgoingReject lpi1Transfer jsval
  | OutgoingCancel lpi1Transfer jsval
  | IncomingPrepare lpi1Transfer

fun step :: "ilp_packet \<Rightarrow> oldPlugin \<Rightarrow> operation \<Rightarrow> plugin \<Rightarrow> plugin" where
  "step c old (SendTransfer uid t) s = snd (sendTransfer c old uid t s)"
| "step c old (RegisterTransferHandler h) s = snd (registerTransferHandler h s)"
| "step c old DeregisterTransferHandler s = deregisterTransferHandler s"
| "step c old (OutgoingFulfill t f ilp) s = snd (handleOutgoingFulfill c t f ilp s)"
| "step c old (OutgoingReject t reason) s = snd (handleOutgoingReject t reason s)"
| "step c old (OutgoingCancel t reason) s = snd (handleOutgoingCancel t reason s)"
| "step c old (IncomingPrepare l) s = snd (handleIncomingPrepare c old l s)"

section \<open>A reference codec\<close>

text \<open>
  A codec in the manner of \<^verbatim>\<open>ilp-packet\<close>: a type byte, then each field with every byte
  preceded by 1 and the field closed by 0. Like the library it carries the payload as
  bytes, so the base64 text it returns need not be the text it was given, and it reads
  only a \<^verbatim>\<open>Buffer\<close>. It serves as the concrete codec of the examples in which the format
  of the envelope plays no part.
\<close>

fun put_field :: "bytes \<Rightarrow> bytes" where
  "put_field [] = [0]"
| "put_field (b # bs) = 1 # b # put_field bs"

fun get_field :: "bytes \<Rightarrow> (bytes \<times> bytes) option" where
  "get_field [] = None"
| "get_field [t] = (if t = 0 then Some ([], []) else None)"
| "get_field (t # b # rest) =
     (if t = 0 then Some ([], b # rest)
      else if t = 1
      then (case get_field rest of None \<Rightarrow> None | Some (f, r) \<Rightarrow> Some (b # f, r))
      else None)"

definition ascii_bytes :: "string \<Rightarrow> bytes" where
  "ascii_bytes s = map (\<lambda>c. of_nat (of_char c)) s"

definition ascii_string :: "bytes \<Rightarrow> string" where
  "ascii_string bs = map (\<lambda>b. char_of (unat b)) bs"

definition reference_deserializeIlpPayment :: "bytes \<Rightarrow> error + ilpPayment" where
  "reference_deserializeIlpPayment bs =
     (case bs of
        [] \<Rightarrow> Inl PacketError
      | ty # r0 \<Rightarrow>
          if ty \<noteq> 1 then Inl PacketError
          else
            (case get_field r0 of
               None \<Rightarrow> Inl PacketError
             | Some (a, r1) \<Rightarrow>
                 (case get_field r1 of
                    None \<Rightarrow> Inl PacketError
                  | Some (m, r2) \<Rightarrow>
                      (case get_field r2 of
                         None \<Rightarrow> Inl PacketError
                       | Some (d, r3) \<Rightarrow>
                           Inr \<lparr>account = ascii_string a, payment_amount = ascii_string m,
                                payment_data = toString_base64 d\<rparr>))))"

definition reference_deserializeIlpFulfillment :: "ilp_value \<Rightarrow> error + string" where
  "reference_deserializeIlpFulfillment v =
     (case v of
        IlpAbsent \<Rightarrow> Inl PacketError
      | IlpText s \<Rightarrow> Inl PacketError
      | IlpArrayLike b \<Rightarrow> Inl PacketError
      | IlpOther \<Rightarrow> Inl PacketError
      | IlpBuffer [] \<Rightarrow> Inl PacketError
      | IlpBuffer (ty # r0) \<Rightarrow>
          if ty \<noteq> 2 then Inl PacketError
          else
            (case get_field r0 of
               None \<Rightarrow> Inl PacketError
             | Some (d, r1) \<Rightarrow> Inr (toString_base64 d)))"

definition reference_codec :: ilp_packet where
  "reference_codec =
     \<lparr>serializeIlpPayment =
        (\<lambda>p. 1 # put_field (ascii_bytes (account p)) @ put_field (ascii_bytes (payment_amount p)) @
               put_field (from_base64 (payment_data p))),
      deserializeIlpPayment = reference_deserializeIlpPayment,
      serializeIlpFulfillment = (\<lambda>d. 2 # put_field (from_base64 d)),
      deserializeIlpFulfillment = reference_deserializeIlpFulfillment\<rparr>"

section \<open>The library \<^verbatim>\<open>ilp-packet\<close>\<close>

text \<open>
  The codec the adapter is run with. An envelope is a type byte followed by its contents as
  a variable-length octet string of the OER encoding (\<^verbatim>\<open>oer-utils\<close>): a length below 128 is
  one byte; a longer one is the byte \<^verbatim>\<open>0x80 | k\<close> followed by the length in \<open>k\<close> bytes, most
  significant first, where \<open>k\<close> is \<^verbatim>\<open>Math.ceil(length.toString(2).length / 8)\<close>. The reader
  takes at most six length bytes and refuses a length below
  \<^verbatim>\<open>Math.max(128, 1 << ((k - 1) * 8))\<close>, where \<^verbatim>\<open><<\<close> takes its count modulo 32. It reads
  only a \<^verbatim>\<open>Buffer\<close>. Whatever the reader throws is \<open>PacketError\<close>.
\<close>

fun uint_bytes :: "nat \<Rightarrow> nat \<Rightarrow> bytes" where
  "uint_bytes 0 n = []"
| "uint_bytes (Suc k) n = uint_bytes k (n div 256) @ [of_nat (n mod 256)]"

definition uint_of :: "bytes \<Rightarrow> nat" where
  "uint_of bs = foldl (\<lambda>a b. a * 256 + unat b) 0 bs"

fun length_of_length :: "nat \<Rightarrow> nat" where
  "length_of_length n = (if n < 256 then 1 else Suc (length_of_length (n div 256)))"

definition writeVarOctetString :: "bytes \<Rightarrow> bytes" where
  "writeVarOctetString b =
     (if length b \<le> 127 then [of_nat (length b)]
      else of_nat (128 + length_of_length (length b)) #
           uint_bytes (length_of_length (length b)) (length b)) @ b"

definition read_bytes :: "nat \<Rightarrow> bytes \<Rightarrow> (bytes \<times> bytes) option" where
  "read_bytes n bs = (if length bs < n then None else Some (take n bs, drop n bs))"

definition min_length :: "nat \<Rightarrow> nat" where
  "min_length k = max 128 (2 ^ ((8 * (k - 1)) mod 32))"

definition readVarOctetString :: "bytes \<Rightarrow> (bytes \<times> bytes) option" where
  "readVarOctetString bs =
     (case bs of
        [] \<Rightarrow> None
      | b # rest \<Rightarrow>
          if unat b < 128 then read_bytes (unat b) rest
          else
            let k = unat b - 128 in
            if k = 0 \<or> 6 < k then None
            else
              (case read_bytes k rest of
                 None \<Rightarrow> None
               | Some (lb, rest') \<Rightarrow>
                   if uint_of lb < min_length k then None else read_bytes (uint_of lb) rest'))"

text \<open>
  A payment has type 1; its contents are the amount in eight bytes, the account written
  with \<^verbatim>\<open>Buffer.from(account, 'ascii')\<close> (the low byte of each character; a character of
  \<open>string\<close> is a code unit below 256) and read with \<^verbatim>\<open>toString('ascii')\<close> (which clears the
  high bit of each byte), the payload decoded from base64 and returned as unpadded URL-safe
  base64, and a zero byte for extensions. A fulfillment has type 9 and carries the payload
  alone. What follows the fields read is ignored. Amounts are decimal numerals; the adapter
  always writes \<^verbatim>\<open>0\<close>.
\<close>

definition digit :: "nat \<Rightarrow> char" where
  "digit d = ''0123456789'' ! d"

fun decimal :: "nat \<Rightarrow> string" where
  "decimal n = (if 9 < n then decimal (n div 10) @ [digit (n mod 10)] else [digit n])"

definition Long_fromString :: "string \<Rightarrow> nat" where
  "Long_fromString s = foldl (\<lambda>a c. a * 10 + (of_char c - 48)) 0 s"

definition ascii_write :: "string \<Rightarrow> bytes" where
  "ascii_write s = map (\<lambda>c. of_nat (of_char c)) s"

definition ascii_read :: "bytes \<Rightarrow> string" where
  "ascii_read bs = map (\<lambda>b. char_of (unat b mod 128)) bs"

definition url_char :: "char \<Rightarrow> char" where
  "url_char c = (if c = CHR ''+'' then CHR ''-'' else if c = CHR ''/'' then CHR ''_'' else c)"

definition base64url :: "bytes \<Rightarrow> string" where
  "base64url bs = map url_char (filter (\<lambda>c. c \<noteq> CHR ''='') (toString_base64 bs))"

definition serializeEnvelope :: "8 word \<Rightarrow> bytes \<Rightarrow> bytes" where
  "serializeEnvelope ty contents = ty # writeVarOctetString contents"

definition deserializeEnvelope :: "bytes \<Rightarrow> (8 word \<times> bytes) option" where
  "deserializeEnvelope bs =
     (case bs of
        [] \<Rightarrow> None
      | ty # r \<Rightarrow>
          (case readVarOctetString r of
             None \<Rightarrow> None
           | Some (contents, r') \<Rightarrow> Some (ty, contents)))"

definition IlpPacket_serializeIlpPayment :: "ilpPayment \<Rightarrow> bytes" where
  "IlpPacket_serializeIlpPayment p =
     serializeEnvelope 1
       (uint_bytes 8 (Long_fromString (payment_amount p)) @
        writeVarOctetString (ascii_write (account p)) @
        writeVarOctetString (from_base64 (payment_data p)) @ [0])"

definition IlpPacket_deserializeIlpPayment :: "bytes \<Rightarrow> error + ilpPayment" where
  "IlpPacket_deserializeIlpPayment bs =
     (case deserializeEnvelope bs of
        None \<Rightarrow> Inl PacketError
      | Some (ty, contents) \<Rightarrow>
          if ty \<noteq> 1 then Inl (Error ''Packet has incorrect type'')
          else
            (case read_bytes 8 contents of
               None \<Rightarrow> Inl PacketError
             | Some (am, r1) \<Rightarrow>
                 (case readVarOctetString r1 of
                    None \<Rightarrow> Inl PacketError
                  | Some (acc, r2) \<Rightarrow>
                      (case readVarOctetString r2 of
                         None \<Rightarrow> Inl PacketError
                       | Some (d, r3) \<Rightarrow>
                           Inr \<lparr>account = ascii_read acc, payment_amount = decimal (uint_of am),
                                payment_data = base64url d\<rparr>))))"

definition IlpPacket_serializeIlpFulfillment :: "string \<Rightarrow> bytes" where
  "IlpPacket_serializeIlpFulfillment d =
     serializeEnvelope 9 (writeVarOctetString (from_base64 d) @ [0])"

definition IlpPacket_deserializeIlpFulfillment :: "ilp_value \<Rightarrow> error + string" where
  "IlpPacket_deserializeIlpFulfillment v =
     (case v of
        IlpAbsent \<Rightarrow> Inl PacketError
      | IlpText s \<Rightarrow> Inl PacketError
      | IlpArrayLike b \<Rightarrow> Inl PacketError
      | IlpOther \<Rightarrow> Inl PacketError
      | IlpBuffer bs \<Rightarrow>
          (case deserializeEnvelope bs of
             None \<Rightarrow> Inl PacketError
           | Some (ty, contents) \<Rightarrow>
               if ty \<noteq> 9 then Inl (Error ''Packet has incorrect type'')
               else
                 (case readVarOctetString contents of
                    None \<Rightarrow> Inl PacketError
                  | Some (d, r) \<Rightarrow> Inr (base64url d))))"

definition IlpPacket :: ilp_packet where
  "IlpPacket =
     \<lparr>serializeIlpPayment = IlpPacket_serializeIlpPayment,
      deserializeIlpPayment = IlpPacket_deserializeIlpPayment,
      serializeIlpFulfillment = IlpPacket_serializeIlpFulfillment,
      deserializeIlpFulfillment = IlpPacket_deserializeIlpFulfillment\<rparr>"

section \<open>Concrete collaborators and requests\<close>

definition usd_plugin :: oldPlugin where
  "usd_plugin =
     \<lparr>getInfo = \<lparr>prefix = ''g.usd.'', connectors = [''g.usd.connector1'']\<rparr>,
      fulfillCondition_throws = (\<lambda>i. None)\<rparr>"

definition isolated_plugin :: oldPlugin where
  "isolated_plugin =
     \<lparr>getInfo = \<lparr>prefix = ''g.usd.'', connectors = []\<rparr>,
      fulfillCondition_throws = (\<lambda>i. None)\<rparr>"

text \<open>A request as a caller of the new interface writes it: it has no method of its own.\<close>

definition alice_request :: transfer where
  "alice_request =
     \<lparr>amount = JStr ''10'', destination = ''g.usd.connector1.alice'', data = [72, 105],
      condition = JStr ''cond'', expiry = JStr ''2017-12-24T00:00:00.000Z'',
      custom = JUndefined, sendTransfer_method = None\<rparr>"

text \<open>The same request on an object that has a \<^verbatim>\<open>sendTransfer\<close> whose promise does not reject.\<close>

definition accepting_send :: "lpi1Transfer \<Rightarrow> jsval option" where
  "accepting_send l = None"

definition alice_request_with_method :: transfer where
  "alice_request_with_method = alice_request\<lparr>sendTransfer_method := Some accepting_send\<rparr>"

text \<open>Alice's request to an address whose last character is \<^verbatim>\<open>e\<close> with an acute accent.\<close>

definition accented_request :: transfer where
  "accented_request = alice_request\<lparr>destination := ''g.usd.'' @ [CHR 0xE9]\<rparr>"

definition bob_request :: transfer where
  "bob_request = alice_request\<lparr>destination := ''g.eur.bob''\<rparr>"

definition refusing_handler :: "transfer \<Rightarrow> handler_result" where
  "refusing_handler t = Rejects (JStr ''no'')"

definition null_handler :: "transfer \<Rightarrow> handler_result" where
  "null_handler t = Rejects JNull"


definition echo_handler :: "transfer \<Rightarrow> handler_result" where
  "echo_handler t = Resolves \<lparr>fulfillment = JStr ''preimage'', fulfill_data = data t\<rparr>"

text \<open>
  The record that \<^verbatim>\<open>sendTransfer\<close> builds for Alice's request under the identifier
  \<^verbatim>\<open>id1\<close>, and the adapter after that request was sent on the object with a method.
\<close>

definition alice_lpi1 :: lpi1Transfer where
  "alice_lpi1 =
     lpi1Transfer_of reference_codec (getInfo usd_plugin) ''id1'' ''g.usd.connector1'' alice_request"

definition alice_pending :: plugin where
  "alice_pending =
     snd (sendTransfer reference_codec usd_plugin ''id1'' alice_request_with_method new_Plugin)"

text \<open>The fulfillment envelope with the payload \<^verbatim>\<open>OK\<close>.\<close>

definition ok_envelope :: ilp_value where
  "ok_envelope = IlpBuffer (serializeIlpFulfillment reference_codec (toString_base64 [79, 75]))"

text \<open>
  An incoming transfer of the old interface that carries no envelope, and one whose
  envelope is the empty text.
\<close>

definition bare_transfer :: lpi1Transfer where
  "bare_transfer =
     \<lparr>lpi1_id = ''7b1c'', lpi1_amount = JStr ''10'', lpi1_to = ''g.usd.connector1'',
      lpi1_ledger = ''g.usd.'', lpi1_ilp = IlpAbsent, lpi1_executionCondition = JStr ''cond'',
      lpi1_expiresAt = JStr ''2017-12-24T00:00:00.000Z'', lpi1_custom = JUndefined\<rparr>"


section \<open>Base64 reads back what it wrote\<close>

lemma unbase64_base64_char_all: "list_all (\<lambda>n. unbase64 (base64_char n) = Some n \<and> base64_char n \<noteq> CHR ''='') [0..<64]"
  by code_simp

lemma unbase64_base64_char: "n < 64 \<Longrightarrow> unbase64 (base64_char n) = Some n"
  using unbase64_base64_char_all by (simp add: list_all_iff)

lemma base64_char_not_pad: "n < 64 \<Longrightarrow> base64_char n \<noteq> CHR ''=''"
  using unbase64_base64_char_all by (simp add: list_all_iff)

lemma byte_bound: "unat (a :: 8 word) < 256"
  using unsigned_less [of a, where 'a = nat] by simp

lemma sextet_bounds:
  fixes a b c :: "8 word"
  shows "unat a div 4 < 64"
    and "(unat a mod 4) * 16 + unat b div 16 < 64"
    and "(unat b mod 16) * 4 + unat c div 64 < 64"
    and "unat c mod 64 < 64"
    and "(unat a mod 4) * 16 < 64"
    and "(unat b mod 16) * 4 < 64"
  using byte_bound [of a] byte_bound [of b] byte_bound [of c] by simp_all

lemma first_byte_back:
  fixes a b :: "8 word"
  shows "of_nat (unat a div 4 * 4 + (unat a mod 4 * 16 + unat b div 16) div 16) = a"
proof -
  have "unat b div 16 < 16" using byte_bound [of b] by simp
  then have "(unat a mod 4 * 16 + unat b div 16) div 16 = unat a mod 4" by simp
  then have "unat a div 4 * 4 + (unat a mod 4 * 16 + unat b div 16) div 16 = unat a" by simp
  then show ?thesis by simp
qed

lemma second_byte_back:
  fixes a b c :: "8 word"
  shows "of_nat ((unat a mod 4 * 16 + unat b div 16) mod 16 * 16 + (unat b mod 16 * 4 + unat c div 64) div 4) = b"
proof -
  have "unat b div 16 < 16" using byte_bound [of b] by simp
  then have 1: "(unat a mod 4 * 16 + unat b div 16) mod 16 = unat b div 16" by simp
  have "unat c div 64 < 4" using byte_bound [of c] by simp
  then have 2: "(unat b mod 16 * 4 + unat c div 64) div 4 = unat b mod 16" by simp
  have "(unat a mod 4 * 16 + unat b div 16) mod 16 * 16 + (unat b mod 16 * 4 + unat c div 64) div 4 = unat b"
    by (simp only: 1 2) simp
  then show ?thesis by simp
qed

lemma third_byte_back:
  fixes b c :: "8 word"
  shows "of_nat ((unat b mod 16 * 4 + unat c div 64) mod 4 * 64 + unat c mod 64) = c"
proof -
  have "unat c div 64 < 4" using byte_bound [of c] by simp
  then have 1: "(unat b mod 16 * 4 + unat c div 64) mod 4 = unat c div 64" by simp
  have "(unat b mod 16 * 4 + unat c div 64) mod 4 * 64 + unat c mod 64 = unat c"
    by (simp only: 1) simp
  then show ?thesis by simp
qed

lemma sextets_of_Nil: "sextets_of [] = []"
  by (simp add: sextets_of_def map_filter_simps)

lemma sextets_of_pad: "sextets_of (CHR ''='' # cs) = []"
  by (simp add: sextets_of_def map_filter_simps)

lemma sextets_of_Cons: "n < 64 \<Longrightarrow> sextets_of (base64_char n # cs) = n # sextets_of cs"
  by (simp add: sextets_of_def base64_char_not_pad unbase64_base64_char map_filter_simps)

lemma base64_roundtrip: "from_base64 (toString_base64 bs) = bs"
proof (induction bs rule: toString_base64.induct)
  case 1
  show ?case by (simp add: from_base64_def sextets_of_Nil)
next
  case (2 a)
  show ?case using first_byte_back [of a 0]
    by (simp add: from_base64_def sextets_of_Cons sextets_of_pad sextet_bounds)
next
  case (3 a b)
  show ?case using first_byte_back [of a b] second_byte_back [of a b 0]
    by (simp add: from_base64_def sextets_of_Cons sextets_of_pad sextet_bounds)
next
  case (4 a b c rest)
  then show ?case using first_byte_back [of a b] second_byte_back [of a b c] third_byte_back [of b c] 
    by (simp add: from_base64_def sextets_of_Cons sextet_bounds)
qed

section \<open>Facts about the reference codec\<close>

lemma get_field_put_field: "get_field (put_field xs @ ys) = Some (xs, ys)"
proof (induction xs)
  case Nil
  show ?case by (cases ys) simp_all
next
  case (Cons x xs)
  then show ?case by simp
qed

lemma unat_of_char: "unat (of_nat (of_char c) :: 8 word) = of_char c"
proof -
  have "(of_char c :: nat) < 256" by simp
  then show ?thesis by (simp add: unat_of_nat)
qed

lemma ascii_roundtrip: "ascii_string (ascii_bytes s) = s"
  by (induction s) (simp_all add: ascii_string_def ascii_bytes_def unat_of_char)

lemma get_field_put_field_end: "get_field (put_field xs) = Some (xs, [])"
  using get_field_put_field [of xs "[]"] by simp

lemma reference_fulfillment_roundtrip:
  "deserializeIlpFulfillment reference_codec
     (IlpBuffer (serializeIlpFulfillment reference_codec d)) =
     Inr (toString_base64 (from_base64 d))"
  by (simp add: reference_codec_def reference_deserializeIlpFulfillment_def get_field_put_field_end)

lemma reference_payment_roundtrip:
  "deserializeIlpPayment reference_codec (serializeIlpPayment reference_codec p) =
     Inr \<lparr>account = account p, payment_amount = payment_amount p,
          payment_data = toString_base64 (from_base64 (payment_data p))\<rparr>"
  by (simp add: reference_codec_def reference_deserializeIlpPayment_def get_field_put_field
        get_field_put_field_end ascii_roundtrip)

section \<open>Facts about \<^verbatim>\<open>ilp-packet\<close>\<close>

declare length_of_length.simps [simp del]
declare decimal.simps [simp del]

lemma length_uint_bytes: "length (uint_bytes k n) = k"
  by (induction k arbitrary: n) simp_all

lemma uint_of_snoc: "uint_of (bs @ [b]) = uint_of bs * 256 + unat b"
  by (simp add: uint_of_def)

lemma unat_byte: "unat (of_nat (n mod 256) :: 8 word) = n mod 256"
  by (simp add: unat_of_nat)

lemma uint_of_uint_bytes: "n < 256 ^ k \<Longrightarrow> uint_of (uint_bytes k n) = n"
proof (induction k arbitrary: n)
  case 0
  then show ?case by (simp add: uint_of_def)
next
  case (Suc k)
  then have "n div 256 < 256 ^ k" by (simp add: less_mult_imp_div_less mult.commute)
  then have "uint_of (uint_bytes k (n div 256)) = n div 256" by (rule Suc.IH)
  then show ?case by (simp add: uint_of_snoc unat_byte)
qed

lemma length_of_length_bounds:
  "n < 256 ^ length_of_length n \<and> (256 \<le> n \<longrightarrow> 256 ^ (length_of_length n - 1) \<le> n) \<and> 0 < length_of_length n"
proof (induction n rule: length_of_length.induct)
  case (1 n)
  show ?case
  proof (cases "n < 256")
    case True
    then show ?thesis by (simp add: length_of_length.simps)
  next
    case False
    then have ih: "n div 256 < 256 ^ length_of_length (n div 256)"
      "256 \<le> n div 256 \<longrightarrow> 256 ^ (length_of_length (n div 256) - 1) \<le> n div 256"
      "0 < length_of_length (n div 256)"
      using 1 by simp_all
    have k: "length_of_length n = Suc (length_of_length (n div 256))"
      using False by (simp add: length_of_length.simps)
    have a: "n < 256 ^ Suc (length_of_length (n div 256))"
    proof -
      have "n < (n div 256 + 1) * 256" by (simp add: dividend_less_div_times)
      also have "\<dots> \<le> 256 ^ length_of_length (n div 256) * 256"
        using ih(1) by (simp add: Suc_leI)
      finally show ?thesis by (simp add: mult.commute)
    qed
    have b: "256 ^ length_of_length (n div 256) \<le> n"
    proof (cases "256 \<le> n div 256")
      case True
      with ih(2) have "256 ^ (length_of_length (n div 256) - 1) \<le> n div 256" by simp
      then have "256 ^ (length_of_length (n div 256) - 1) * 256 \<le> (n div 256) * 256" by simp
      also have "\<dots> \<le> n" by simp
      finally show ?thesis using ih(3)
        by (metis Suc_pred' power_Suc2)
    next
      case lt: False
      then have "length_of_length (n div 256) = 1" by (simp add: length_of_length.simps)
      then show ?thesis using False by simp
    qed
    show ?thesis using a b k by simp
  qed
qed

lemma read_bytes_append: "read_bytes (length xs) (xs @ ys) = Some (xs, ys)"
  by (simp add: read_bytes_def)

lemma min_length_le: "128 \<le> n \<Longrightarrow> min_length (length_of_length n) \<le> n"
proof (cases "n < 256")
  case True
  assume "128 \<le> n"
  with True show ?thesis by (simp add: min_length_def length_of_length.simps)
next
  case False
  let ?k = "length_of_length n"
  have b: "256 ^ (?k - 1) \<le> n"
    using False length_of_length_bounds [of n] by simp
  have "(2::nat) ^ ((8 * (?k - 1)) mod 32) \<le> 2 ^ (8 * (?k - 1))"
    by (rule power_increasing) simp_all
  also have "\<dots> = (256::nat) ^ (?k - 1)"
    by (simp add: power_mult)
  finally have "(2::nat) ^ ((8 * (?k - 1)) mod 32) \<le> n" using b by simp
  then show ?thesis using False by (simp add: min_length_def)
qed

lemma unat_small: "n < 256 \<Longrightarrow> unat (of_nat n :: 8 word) = n"
  by (simp add: unat_of_nat)

lemma length_of_length_small: "n < 256 ^ 6 \<Longrightarrow> length_of_length n \<le> 6"
proof -
  assume a: "n < 256 ^ 6"
  show ?thesis
  proof (cases "n < 256")
    case True
    then show ?thesis by (simp add: length_of_length.simps)
  next
    case False
    then have "256 ^ (length_of_length n - 1) \<le> n"
      using length_of_length_bounds [of n] by simp
    with a have "(256::nat) ^ (length_of_length n - 1) < 256 ^ 6" by simp
    then have "length_of_length n - 1 < 6"
      by (rule power_less_imp_less_exp [of "256::nat", rotated]) simp
    then show ?thesis by simp
  qed
qed

lemma readVarOctetString_write:
  assumes "length b < 256 ^ 6"
  shows "readVarOctetString (writeVarOctetString b @ rest) = Some (b, rest)"
proof (cases "length b \<le> 127")
  case True
  then have "unat (of_nat (length b) :: 8 word) = length b"
    by (simp add: unat_small)
  with True show ?thesis
    by (simp add: readVarOctetString_def writeVarOctetString_def read_bytes_append)
next
  case False
  let ?n = "length b"
  let ?k = "length_of_length ?n"
  have k6: "?k \<le> 6" using assms by (rule length_of_length_small)
  have k0: "0 < ?k" using length_of_length_bounds [of ?n] by simp
  define h :: "8 word" where "h = of_nat (128 + ?k)"
  have first: "unat h = 128 + ?k"
    unfolding h_def using k6 by (intro unat_small) simp
  have w: "writeVarOctetString b @ rest = h # uint_bytes ?k ?n @ b @ rest"
    using False by (simp only: writeVarOctetString_def h_def if_False append_Cons append_assoc)
  have n: "uint_of (uint_bytes ?k ?n) = ?n"
    using length_of_length_bounds [of ?n] by (simp add: uint_of_uint_bytes)
  have rd: "read_bytes ?k (uint_bytes ?k ?n @ b @ rest) = Some (uint_bytes ?k ?n, b @ rest)"
    using read_bytes_append [of "uint_bytes ?k ?n" "b @ rest"] by (simp add: length_uint_bytes)
  have ml: "\<not> ?n < min_length ?k"
    using False min_length_le [of ?n] by simp
  show ?thesis
    unfolding w using k6 k0 ml
    by (simp add: readVarOctetString_def first rd n read_bytes_append Let_def)
qed

lemma ascii_read_write:
  "\<forall>ch \<in> set s. of_char ch < (128::nat) \<Longrightarrow> ascii_read (ascii_write s) = s"
proof (induction s)
  case Nil
  show ?case by (simp add: ascii_read_def ascii_write_def)
next
  case (Cons c s)
  then have "of_char c < (128::nat)" by simp
  then have "(of_char c :: nat) mod 128 = of_char c" by simp
  then have "char_of (unat (of_nat (of_char c) :: 8 word) mod 128) = c"
    by (simp add: unat_of_char)
  with Cons show ?case by (simp add: ascii_read_def ascii_write_def)
qed

lemma url_char_all:
  "list_all (\<lambda>n. unbase64 (url_char (base64_char n)) = Some n \<and> url_char (base64_char n) \<noteq> CHR ''='') [0..<64]"
  by code_simp

lemma sextets_of_url_Cons: "n < 64 \<Longrightarrow> sextets_of (url_char (base64_char n) # cs) = n # sextets_of cs"
  using url_char_all by (simp add: sextets_of_def list_all_iff map_filter_simps)

lemma base64url_roundtrip: "from_base64 (base64url bs) = bs"
proof (induction bs rule: toString_base64.induct)
  case 1
  show ?case by (simp add: base64url_def from_base64_def sextets_of_Nil)
next
  case (2 a)
  show ?case using first_byte_back [of a 0]
    by (simp add: base64url_def from_base64_def base64_char_not_pad sextets_of_url_Cons
          sextets_of_Nil sextet_bounds)
next
  case (3 a b)
  show ?case using first_byte_back [of a b] second_byte_back [of a b 0]
    by (simp add: base64url_def from_base64_def base64_char_not_pad sextets_of_url_Cons
          sextets_of_Nil sextet_bounds)
next
  case (4 a b c rest)
  then show ?case using first_byte_back [of a b] second_byte_back [of a b c] third_byte_back [of b c]
    by (simp add: base64url_def from_base64_def base64_char_not_pad sextets_of_url_Cons sextet_bounds)
qed

lemma length_writeVarOctetString:
  "length b < 256 ^ 6 \<Longrightarrow> length (writeVarOctetString b) \<le> length b + 7"
  using length_of_length_small [of "length b"]
  by (simp add: writeVarOctetString_def length_uint_bytes)

lemma deserializeEnvelope_serialize:
  "length contents < 256 ^ 6 \<Longrightarrow>
     deserializeEnvelope (serializeEnvelope ty contents) = Some (ty, contents)"
  using readVarOctetString_write [of contents "[]"]
  by (simp add: deserializeEnvelope_def serializeEnvelope_def)

lemma IlpPacket_payment_roundtrip:
  assumes "length (account p) < 2 ^ 31" and "length (from_base64 (payment_data p)) < 2 ^ 31"
  shows "IlpPacket_deserializeIlpPayment (IlpPacket_serializeIlpPayment p) =
     Inr \<lparr>account = ascii_read (ascii_write (account p)),
          payment_amount = decimal (uint_of (uint_bytes 8 (Long_fromString (payment_amount p)))),
          payment_data = base64url (from_base64 (payment_data p))\<rparr>"
proof -
  let ?am = "uint_bytes 8 (Long_fromString (payment_amount p))"
  let ?acc = "ascii_write (account p)"
  let ?d = "from_base64 (payment_data p)"
  let ?contents = "?am @ writeVarOctetString ?acc @ writeVarOctetString ?d @ [0]"
  have la: "length ?acc < 256 ^ 6" using assms(1) by (simp add: ascii_write_def)
  have ld: "length ?d < 256 ^ 6" using assms(2) by simp
  have "length ?contents \<le> 8 + (length ?acc + 7) + (length ?d + 7) + 1"
    using length_writeVarOctetString [OF la] length_writeVarOctetString [OF ld]
    by (simp add: length_uint_bytes)
  also have "\<dots> < 256 ^ 6" using assms by (simp add: ascii_write_def)
  finally have lc: "length ?contents < 256 ^ 6" .
  have env: "deserializeEnvelope (serializeEnvelope 1 ?contents) = Some (1, ?contents)"
    using lc by (rule deserializeEnvelope_serialize)
  have am: "read_bytes 8 ?contents =
              Some (?am, writeVarOctetString ?acc @ writeVarOctetString ?d @ [0])"
    using read_bytes_append [of ?am "writeVarOctetString ?acc @ writeVarOctetString ?d @ [0]"]
    by (simp add: length_uint_bytes)
  have r1: "readVarOctetString (writeVarOctetString ?acc @ writeVarOctetString ?d @ [0]) =
              Some (?acc, writeVarOctetString ?d @ [0])"
    using la by (rule readVarOctetString_write)
  have r2: "readVarOctetString (writeVarOctetString ?d @ [0]) = Some (?d, [0])"
    using ld by (rule readVarOctetString_write)
  show ?thesis
    unfolding IlpPacket_serializeIlpPayment_def IlpPacket_deserializeIlpPayment_def
    by (simp only: env am r1 r2 option.case prod.case) simp
qed

section \<open>Facts about the delivery address\<close>

lemma split_on_hd: "\<exists>ws. split_on sep s = takeWhile (\<lambda>c. c \<noteq> sep) s # ws"
  by (induction s) auto

lemma startsWith_iff: "startsWith p s \<longleftrightarrow> (\<exists>rest. s = p @ rest)"
  unfolding startsWith_def
  by (metis append_eq_conv_conj append_take_drop_id)

lemma to_address_local: "to_address i (prefix i @ rest) = Some (prefix i @ first_segment rest)"
proof -
  obtain ws where "split_on CHR ''.'' rest = first_segment rest # ws"
    using split_on_hd [of "CHR ''.''" rest] unfolding first_segment_def by blast
  then show ?thesis by (simp add: to_address_def startsWith_def)
qed

lemma to_address_remote:
  "\<not> startsWith (prefix i) d \<Longrightarrow> to_address i d = (case connectors i of [] \<Rightarrow> None | c # _ \<Rightarrow> Some c)"
  by (simp add: to_address_def)

section \<open>What each operation leaves alone\<close>

lemma promise_at_settle:
  "promise_at (settle p v s) q =
     (if q = p \<and> promise_at s p = Some Pending then Some (settled v) else promise_at s q)"
  by (auto simp: settle_def promise_at_def)

lemma settle_frame:
  "transfers (settle p v s) = transfers s"
  "transferHandler (settle p v s) = transferHandler s"
  "calls (settle p v s) = calls s"
  "settlements (settle p v s) = settlements s @ [(p, v)]"
  by (simp_all add: settle_def)

lemma settle_settled:
  "promise_at s p \<noteq> Some Pending \<Longrightarrow> promises (settle p v s) = promises s"
  by (simp add: settle_def)

lemma called_frame:
  "transfers (called c s) = transfers s"
  "transferHandler (called c s) = transferHandler s"
  "promises (called c s) = promises s"
  "settlements (called c s) = settlements s"
  "calls (called c s) = calls s @ [c]"
  "promise_at (called c s) q = promise_at s q"
  by (simp_all add: called_def promise_at_def)

lemma promise_at_eq: "promises s' = promises s \<Longrightarrow> promise_at s' p = promise_at s p"
  by (simp add: promise_at_def)

lemma sendTransfer_transfers:
  "transfers (snd (sendTransfer c old uid t s)) = transfers s \<or>
   transfers (snd (sendTransfer c old uid t s)) = (transfers s)(uid \<mapsto> length (promises s))"
  by (simp add: sendTransfer_def Let_def settle_frame called_frame split: option.splits)

lemma sendTransfer_accepted_transfers:
  "fst (sendTransfer c old uid t s) = Inr p \<Longrightarrow>
   p = length (promises s) \<and> transfers (snd (sendTransfer c old uid t s)) = (transfers s)(uid \<mapsto> p)"
  by (auto simp add: sendTransfer_def Let_def settle_frame called_frame split: option.splits if_splits)

lemma promise_at_fresh:
  "promise_at (s\<lparr>promises := promises s @ [Pending], transfers := m\<rparr>) p =
     (if p = length (promises s) then Some Pending else promise_at s p)"
  by (simp add: promise_at_def nth_append)

lemma sendTransfer_not_resolved:
  "promise_at (snd (sendTransfer c old uid t s)) p = Some (Resolved r) \<Longrightarrow> promise_at s p = Some (Resolved r)"
  by (auto simp add: sendTransfer_def Let_def promise_at_settle called_frame promise_at_fresh
        split: option.splits if_splits)

lemma transfers_lookup_Entry: "transfers_lookup s k = Entry p \<longleftrightarrow> transfers s k = Some p"
  by (simp add: transfers_lookup_def split: option.splits)

lemma transfers_lookup_Some: "transfers s k = Some p \<Longrightarrow> transfers_lookup s k = Entry p"
  by (simp add: transfers_lookup_Entry)

lemma transfers_lookup_Missing:
  "transfers_lookup s k = Missing \<longleftrightarrow> transfers s k = None \<and> k \<notin> set Object_prototype_names"
  by (simp add: transfers_lookup_def split: option.splits)

lemma handleOutgoingFulfill_transfers:
  "transfers (snd (handleOutgoingFulfill c t f ilp s)) = transfers s"
  by (simp add: handleOutgoingFulfill_def settle_frame split: lookup.splits sum.splits)

lemma handleOutgoingReject_transfers:
  "transfers (snd (handleOutgoingReject t reason s)) = transfers s"
  by (simp add: handleOutgoingReject_def settle_frame split: lookup.splits)

lemma handleOutgoingCancel_transfers:
  "transfers (snd (handleOutgoingCancel t reason s)) = transfers s"
  by (simp add: handleOutgoingCancel_def settle_frame split: lookup.splits)

lemma handleOutgoingReject_Entry:
  "transfers s (lpi1_id t) = Some p \<Longrightarrow>
     handleOutgoingReject t reason s = (None, settle p (Reject reason) s)"
  by (simp add: handleOutgoingReject_def transfers_lookup_Some)

lemma handleOutgoingCancel_Entry:
  "transfers s (lpi1_id t) = Some p \<Longrightarrow>
     handleOutgoingCancel t reason s = (None, settle p (Reject reason) s)"
  by (simp add: handleOutgoingCancel_def transfers_lookup_Some)

lemma handleOutgoingFulfill_Entry:
  "transfers s (lpi1_id t) = Some p \<Longrightarrow> deserializeIlpFulfillment c ilp = Inr d \<Longrightarrow>
     handleOutgoingFulfill c t f ilp s =
       (None, settle p (Resolve \<lparr>fulfillment = f, fulfill_data = from_base64 d\<rparr>) s)"
  by (simp add: handleOutgoingFulfill_def transfers_lookup_Some)

lemma handleOutgoingFulfill_unreadable:
  "transfers s (lpi1_id t) = Some p \<Longrightarrow> deserializeIlpFulfillment c ilp = Inl e \<Longrightarrow>
     handleOutgoingFulfill c t f ilp s = (Some e, s)"
  by (simp add: handleOutgoingFulfill_def transfers_lookup_Some)

lemma missing_identifier_is_ignored:
  "transfers s (lpi1_id t) = None \<Longrightarrow> lpi1_id t \<notin> set Object_prototype_names \<Longrightarrow>
     handleOutgoingFulfill c t f ilp s = (None, s) \<and>
     handleOutgoingReject t reason s = (None, s) \<and>
     handleOutgoingCancel t reason s = (None, s)"
  by (simp add: handleOutgoingFulfill_def handleOutgoingReject_def handleOutgoingCancel_def
        transfers_lookup_def)

lemma handleIncomingPrepare_frame:
  "transfers (snd (handleIncomingPrepare c old l s)) = transfers s"
  "promises (snd (handleIncomingPrepare c old l s)) = promises s"
  by (simp_all add: handleIncomingPrepare_def split: sum.splits prod.splits)

lemma registerTransferHandler_frame:
  "transfers (snd (registerTransferHandler h s)) = transfers s"
  "promises (snd (registerTransferHandler h s)) = promises s"
  by (simp_all add: registerTransferHandler_def)

lemma step_transfers:
  "transfers (step c old op s) = transfers s \<or>
   (\<exists>uid. transfers (step c old op s) = (transfers s)(uid \<mapsto> length (promises s)))"
proof (cases op)
  case (SendTransfer uid t)
  then show ?thesis using sendTransfer_transfers [of c old uid t s] by auto
qed (simp_all add: handleOutgoingFulfill_transfers handleOutgoingReject_transfers
       handleOutgoingCancel_transfers handleIncomingPrepare_frame registerTransferHandler_frame
       deregisterTransferHandler_def)

lemma step_keeps_entries: "transfers s k = Some q \<Longrightarrow> transfers (step c old op s) k \<noteq> None"
  using step_transfers [of c old op s] by auto

lemma resolved_only_by_fulfill:
  assumes "promise_at (step c old op s) p = Some (Resolved r)" "promise_at s p \<noteq> Some (Resolved r)"
  shows "\<exists>t f ilp d. op = OutgoingFulfill t f ilp \<and> transfers s (lpi1_id t) = Some p \<and>
           promise_at s p = Some Pending \<and>
           deserializeIlpFulfillment c ilp = Inr d \<and> r = \<lparr>fulfillment = f, fulfill_data = from_base64 d\<rparr>"
proof (cases op)
  case (SendTransfer uid t)
  then show ?thesis using assms sendTransfer_not_resolved [of c old uid t s p r] by simp
next
  case (RegisterTransferHandler h)
  then show ?thesis using assms promise_at_eq [OF registerTransferHandler_frame(2), of h s p] by simp
next
  case DeregisterTransferHandler
  then show ?thesis using assms promise_at_eq [of "deregisterTransferHandler s" s p]
    by (simp add: deregisterTransferHandler_def)
next
  case (OutgoingFulfill t f ilp)
  then show ?thesis using assms
    by (auto simp: handleOutgoingFulfill_def promise_at_settle transfers_lookup_Entry
          split: lookup.splits sum.splits if_splits)
next
  case (OutgoingReject t reason)
  then show ?thesis using assms
    by (auto simp: handleOutgoingReject_def promise_at_settle split: lookup.splits if_splits)
next
  case (OutgoingCancel t reason)
  then show ?thesis using assms
    by (auto simp: handleOutgoingCancel_def promise_at_settle split: lookup.splits if_splits)
next
  case (IncomingPrepare l)
  then show ?thesis using assms promise_at_eq [OF handleIncomingPrepare_frame(2), of c old l s p] by simp
qed


lemma settle_twice:
  "promise_at s p = Some Pending \<Longrightarrow>
   promises (settle p v2 (settle p v1 s)) = promises (settle p v1 s) \<and>
   promise_at (settle p v2 (settle p v1 s)) p = Some (settled v1) \<and>
   settlements (settle p v2 (settle p v1 s)) = settlements s @ [(p, v1), (p, v2)] \<and>
   transfers (settle p v2 (settle p v1 s)) = transfers s"
proof -
  assume a: "promise_at s p = Some Pending"
  have "promise_at (settle p v1 s) p = Some (settled v1)"
    using a by (simp add: promise_at_settle)
  moreover have ns: "settled v1 \<noteq> Pending" by (cases v1) simp_all
  ultimately have "promise_at (settle p v1 s) p \<noteq> Some Pending" by simp
  then have "promises (settle p v2 (settle p v1 s)) = promises (settle p v1 s)"
    by (rule settle_settled)
  then show ?thesis
    using a ns by (simp add: promise_at_settle settle_frame)
qed

section \<open>The concrete states\<close>

lemma alice_to: "to_address (getInfo usd_plugin) (destination alice_request) = Some ''g.usd.connector1''"
  using to_address_local [of "getInfo usd_plugin" "''connector1.alice''"]
  by (simp add: alice_request_def usd_plugin_def first_segment_def)

lemma alice_lpi1_id: "lpi1_id alice_lpi1 = ''id1''"
  by (simp add: alice_lpi1_def lpi1Transfer_of_def)

lemma alice_pending_state:
  "transfers alice_pending = [''id1'' \<mapsto> 0]"
  "promises alice_pending = [Pending]"
  "settlements alice_pending = []"
  "transferHandler alice_pending = NotFunction JUndefined"
  unfolding alice_pending_def sendTransfer_def
  by (simp_all add: alice_to Let_def alice_request_with_method_def accepting_send_def called_def new_Plugin_def)

lemma alice_pending_promise: "promise_at alice_pending 0 = Some Pending"
  by (simp add: promise_at_def alice_pending_state)

lemma ok_envelope_reads: "deserializeIlpFulfillment reference_codec ok_envelope = Inr (toString_base64 [79, 75])"
  by (simp only: ok_envelope_def reference_fulfillment_roundtrip base64_roundtrip)

lemma reference_incoming:
  "incoming_transfer reference_codec (lpi1Transfer_of reference_codec i uid to t) =
     Inr (t\<lparr>sendTransfer_method := None\<rparr>)"
  by (cases t)
     (simp add: incoming_transfer_def lpi1Transfer_of_def Buffer_from_def outgoing_ilp_def
        reference_payment_roundtrip base64_roundtrip)

lemma alice_incoming:
  "incoming_transfer reference_codec alice_lpi1 =
     Inr (alice_request\<lparr>sendTransfer_method := None\<rparr>)"
  by (simp add: alice_lpi1_def reference_incoming)

lemma echo_incoming:
  "handleIncomingPrepare reference_codec usd_plugin alice_lpi1
     (snd (registerTransferHandler (Function echo_handler) new_Plugin)) =
   (None, (snd (registerTransferHandler (Function echo_handler) new_Plugin))
      \<lparr>calls := [OldPlugin_fulfillCondition ''id1'' (JStr ''preimage'')
                   (serializeIlpFulfillment reference_codec (toString_base64 [72, 105]))]\<rparr>)"
  by (simp add: handleIncomingPrepare_def alice_incoming incoming_block_def incoming_catch_def
        registerTransferHandler_def new_Plugin_def echo_handler_def alice_lpi1_id usd_plugin_def)
     (simp add: alice_request_def)


lemma null_rejection_is_lost:
  "handleIncomingPrepare reference_codec usd_plugin alice_lpi1
     (snd (registerTransferHandler (Function null_handler) new_Plugin)) =
   (None, snd (registerTransferHandler (Function null_handler) new_Plugin)) \<and>
   calls (snd (registerTransferHandler (Function null_handler) new_Plugin)) = []"
  by (simp add: handleIncomingPrepare_def alice_incoming incoming_block_def incoming_catch_def
        registerTransferHandler_def new_Plugin_def null_handler_def catch_throws_def)

lemma oldPlugin_sendTransfer_never_called:
  "OldPlugin_sendTransfer l \<in> set (calls (step c old op s)) \<Longrightarrow> OldPlugin_sendTransfer l \<in> set (calls s)"
  by (cases op)
     (auto simp: sendTransfer_def Let_def settle_frame called_frame registerTransferHandler_def
        deregisterTransferHandler_def handleOutgoingFulfill_def handleOutgoingReject_def
        handleOutgoingCancel_def handleIncomingPrepare_def incoming_block_def incoming_catch_def
        split: option.splits if_splits sum.splits handler_val.splits handler_result.splits
          lookup.splits)

section \<open>The claims\<close>

text \<open>
  Claim C2. For every outgoing request: when the destination starts with the ledger prefix
  of the wrapped plugin, the delivery address \<^verbatim>\<open>to\<close> is the prefix followed by the first
  dot-separated segment of what follows the prefix; otherwise it is the first configured
  connector (\<^verbatim>\<open>undefined\<close> when there is none). The destination \<^verbatim>\<open>g.usd.connector1.alice\<close>
  under the prefix \<^verbatim>\<open>g.usd.\<close> gives \<^verbatim>\<open>g.usd.connector1\<close>.
\<close>

theorem to_address_as_specified:
  "(destination t = prefix i @ rest \<longrightarrow>
      to_address i (destination t) = Some (prefix i @ first_segment rest)) \<and>
   ((\<nexists>rest. destination t = prefix i @ rest) \<longrightarrow>
      to_address i (destination t) = (case connectors i of [] \<Rightarrow> None | c # cs \<Rightarrow> Some c)) \<and>
   to_address \<lparr>prefix = ''g.usd.'', connectors = any\<rparr> ''g.usd.connector1.alice'' =
     Some ''g.usd.connector1''"
proof (intro conjI impI)
  assume "destination t = prefix i @ rest"
  then show "to_address i (destination t) = Some (prefix i @ first_segment rest)"
    by (simp add: to_address_local)
next
  assume "\<nexists>rest. destination t = prefix i @ rest"
  then have "\<not> startsWith (prefix i) (destination t)"
    by (simp add: startsWith_iff)
  then show "to_address i (destination t) = (case connectors i of [] \<Rightarrow> None | c # cs \<Rightarrow> Some c)"
    by (rule to_address_remote)
next
  have "to_address \<lparr>prefix = ''g.usd.'', connectors = any\<rparr> (''g.usd.'' @ ''connector1.alice'') =
          Some (''g.usd.'' @ first_segment ''connector1.alice'')"
    using to_address_local [of "\<lparr>prefix = ''g.usd.'', connectors = any\<rparr>" "''connector1.alice''"]
    by simp
  then show "to_address \<lparr>prefix = ''g.usd.'', connectors = any\<rparr> ''g.usd.connector1.alice'' =
               Some ''g.usd.connector1''"
    by (simp add: first_segment_def)
qed

text \<open>The two branches at the requests of Alice (local) and Bob (another ledger).\<close>

theorem to_address_as_specified_witness:
  "to_address (getInfo usd_plugin) (destination alice_request) = Some ''g.usd.connector1'' \<and>
   to_address (getInfo usd_plugin) (destination bob_request) = Some ''g.usd.connector1''"
proof
  have "destination alice_request = prefix (getInfo usd_plugin) @ ''connector1.alice''"
    by (simp add: alice_request_def usd_plugin_def)
  then have "to_address (getInfo usd_plugin) (destination alice_request) =
               Some (prefix (getInfo usd_plugin) @ first_segment ''connector1.alice'')"
    using to_address_as_specified [of alice_request "getInfo usd_plugin" "''connector1.alice''"]
    by blast
  then show "to_address (getInfo usd_plugin) (destination alice_request) = Some ''g.usd.connector1''"
    by (simp add: usd_plugin_def first_segment_def)
next
  have "\<nexists>rest. destination bob_request = prefix (getInfo usd_plugin) @ rest"
    by (simp add: bob_request_def alice_request_def usd_plugin_def)
  then have "to_address (getInfo usd_plugin) (destination bob_request) =
               (case connectors (getInfo usd_plugin) of [] \<Rightarrow> None | c # cs \<Rightarrow> Some c)"
    using to_address_as_specified [of bob_request "getInfo usd_plugin"] by blast
  then show "to_address (getInfo usd_plugin) (destination bob_request) = Some ''g.usd.connector1''"
    by (simp add: usd_plugin_def)
qed

text \<open>
  Claim C3. When the computation of the delivery address yields no address (the destination
  is not under the ledger prefix and no connector is configured; more generally \<^verbatim>\<open>to\<close> is
  \<^verbatim>\<open>undefined\<close> or empty), \<^verbatim>\<open>sendTransfer\<close> fails with the error \<^verbatim>\<open>No valid destination\<close>, and
  the adapter is left as it was: no entry is added to the correlation table and no call is
  made.
\<close>

theorem sendTransfer_without_address_fails_atomically:
  "((\<not> startsWith (prefix (getInfo old)) (destination t) \<and> connectors (getInfo old) = []) \<or>
    to_address (getInfo old) (destination t) = None \<or>
    to_address (getInfo old) (destination t) = Some [] \<longrightarrow>
      fst (sendTransfer c old uid t s) =
        Inl (Error ''No valid destination: no connector and destination is not local'') \<and>
      snd (sendTransfer c old uid t s) = s \<and>
      transfers (snd (sendTransfer c old uid t s)) = transfers s \<and>
      calls (snd (sendTransfer c old uid t s)) = calls s)"
proof
  assume a: "(\<not> startsWith (prefix (getInfo old)) (destination t) \<and> connectors (getInfo old) = []) \<or>
    to_address (getInfo old) (destination t) = None \<or>
    to_address (getInfo old) (destination t) = Some []"
  have "to_address (getInfo old) (destination t) = None \<or>
        to_address (getInfo old) (destination t) = Some []"
    using a by (auto simp: to_address_remote)
  then have "sendTransfer c old uid t s =
               (Inl (Error ''No valid destination: no connector and destination is not local''), s)"
    by (auto simp: sendTransfer_def)
  then show "fst (sendTransfer c old uid t s) =
        Inl (Error ''No valid destination: no connector and destination is not local'') \<and>
      snd (sendTransfer c old uid t s) = s \<and>
      transfers (snd (sendTransfer c old uid t s)) = transfers s \<and>
      calls (snd (sendTransfer c old uid t s)) = calls s"
    by simp
qed

text \<open>Bob's request, on a plugin whose ledger has no connector.\<close>

theorem sendTransfer_without_address_fails_atomically_witness:
  "fst (sendTransfer reference_codec isolated_plugin ''id1'' bob_request new_Plugin) =
     Inl (Error ''No valid destination: no connector and destination is not local'') \<and>
   snd (sendTransfer reference_codec isolated_plugin ''id1'' bob_request new_Plugin) = new_Plugin \<and>
   transfers (snd (sendTransfer reference_codec isolated_plugin ''id1'' bob_request new_Plugin)) ''id1'' = None \<and>
   calls (snd (sendTransfer reference_codec isolated_plugin ''id1'' bob_request new_Plugin)) = []"
proof -
  have "\<not> startsWith (prefix (getInfo isolated_plugin)) (destination bob_request) \<and>
        connectors (getInfo isolated_plugin) = []"
    by (simp add: startsWith_def isolated_plugin_def bob_request_def alice_request_def)
  then show ?thesis
    using sendTransfer_without_address_fails_atomically
            [of isolated_plugin bob_request reference_codec "''id1''" new_Plugin]
    by (simp add: new_Plugin_def)
qed

text \<open>
  Claim C6, at a new adapter, whose table is empty. The claim says that an event whose
  identifier has no entry is ignored without a throw, and the handlers test for it and log
  that they ignore it. But the table is a plain object: for the identifiers
  \<^verbatim>\<open>constructor\<close>, \<^verbatim>\<open>__proto__\<close> and \<^verbatim>\<open>toString\<close> the test finds what every object inherits,
  and the rejection, cancellation and fulfillment handlers throw a \<^verbatim>\<open>TypeError\<close>. The
  state is left as it was.
\<close>

theorem inherited_identifier_is_not_ignored:
  "transfers new_Plugin ''constructor'' = None \<and>
   handleOutgoingReject (bare_transfer\<lparr>lpi1_id := ''constructor''\<rparr>) (JStr ''late'') new_Plugin =
     (Some TypeError, new_Plugin) \<and>
   transfers new_Plugin ''__proto__'' = None \<and>
   handleOutgoingCancel (bare_transfer\<lparr>lpi1_id := ''__proto__''\<rparr>) (JStr ''late'') new_Plugin =
     (Some TypeError, new_Plugin) \<and>
   transfers new_Plugin ''toString'' = None \<and>
   handleOutgoingFulfill reference_codec (bare_transfer\<lparr>lpi1_id := ''toString''\<rparr>)
     (JStr ''preimage'') ok_envelope new_Plugin =
     (Some TypeError, new_Plugin)"
proof -
  have t: "transfers new_Plugin = Map.empty"
    by (simp add: new_Plugin_def)
  have l: "transfers_lookup new_Plugin ''constructor'' = Inherited"
    "transfers_lookup new_Plugin ''__proto__'' = Inherited"
    "transfers_lookup new_Plugin ''toString'' = Inherited"
    by (simp_all add: transfers_lookup_def t Object_prototype_names_def)
  show ?thesis
    by (simp add: t l handleOutgoingReject_def handleOutgoingCancel_def handleOutgoingFulfill_def
          ok_envelope_reads)
qed

text \<open>
  Claim C5. A rejection event and a cancellation event whose transfer identifier has an
  entry with a pending promise reject that promise with the reason of the event, unchanged;
  and the cancellation handler does on every input what the rejection handler does.
\<close>

theorem reject_and_cancel_pass_the_reason:
  "(transfers s (lpi1_id t) = Some p \<and> promise_at s p = Some Pending \<longrightarrow>
      fst (handleOutgoingReject t reason s) = None \<and>
      promise_at (snd (handleOutgoingReject t reason s)) p = Some (Rejected reason) \<and>
      fst (handleOutgoingCancel t reason s) = None \<and>
      promise_at (snd (handleOutgoingCancel t reason s)) p = Some (Rejected reason)) \<and>
   handleOutgoingCancel t reason s = handleOutgoingReject t reason s"
proof (intro conjI impI)
  assume a: "transfers s (lpi1_id t) = Some p \<and> promise_at s p = Some Pending"
  then have "handleOutgoingReject t reason s = (None, settle p (Reject reason) s)"
    and "handleOutgoingCancel t reason s = (None, settle p (Reject reason) s)"
    by (simp_all add: handleOutgoingReject_Entry handleOutgoingCancel_Entry)
  with a show "fst (handleOutgoingReject t reason s) = None"
    and "promise_at (snd (handleOutgoingReject t reason s)) p = Some (Rejected reason)"
    and "fst (handleOutgoingCancel t reason s) = None"
    and "promise_at (snd (handleOutgoingCancel t reason s)) p = Some (Rejected reason)"
    by (simp_all add: promise_at_settle)
next
  show "handleOutgoingCancel t reason s = handleOutgoingReject t reason s"
    by (simp add: handleOutgoingReject_def handleOutgoingCancel_def)
qed

text \<open>Both events at the adapter that holds Alice's pending transfer.\<close>

theorem reject_and_cancel_pass_the_reason_witness:
  "promise_at (snd (handleOutgoingReject alice_lpi1 (JStr ''insufficient funds'') alice_pending)) 0 =
     Some (Rejected (JStr ''insufficient funds'')) \<and>
   promise_at (snd (handleOutgoingCancel alice_lpi1 (JStr ''expired'') alice_pending)) 0 =
     Some (Rejected (JStr ''expired''))"
proof -
  have h: "transfers alice_pending (lpi1_id alice_lpi1) = Some 0 \<and> promise_at alice_pending 0 = Some Pending"
    by (simp add: alice_pending_state alice_lpi1_id alice_pending_promise)
  show ?thesis
    using h reject_and_cancel_pass_the_reason [of alice_pending alice_lpi1 0 "JStr ''insufficient funds''"]
      reject_and_cancel_pass_the_reason [of alice_pending alice_lpi1 0 "JStr ''expired''"]
    by blast
qed

text \<open>
  Claim C4, as stated: every fulfillment event whose identifier has an entry with a pending
  promise resolves that promise. At Alice's pending transfer, an event that carries no
  envelope, or an empty one, makes line 160 throw before \<^verbatim>\<open>resolve\<close> is reached: the handler
  throws and the promise stays pending.
\<close>

theorem unreadable_fulfillment_counterexample:
  "transfers alice_pending (lpi1_id alice_lpi1) = Some 0 \<and>
   promise_at alice_pending 0 = Some Pending \<and>
   handleOutgoingFulfill reference_codec alice_lpi1 (JStr ''preimage'') IlpAbsent alice_pending =
     (Some PacketError, alice_pending) \<and>
   handleOutgoingFulfill reference_codec alice_lpi1 (JStr ''preimage'') (IlpBuffer []) alice_pending =
     (Some PacketError, alice_pending) \<and>
   promise_at
     (snd (handleOutgoingFulfill reference_codec alice_lpi1 (JStr ''preimage'') IlpAbsent alice_pending)) 0 =
     Some Pending"
proof -
  have e: "transfers alice_pending (lpi1_id alice_lpi1) = Some 0"
    by (simp add: alice_pending_state alice_lpi1_id)
  have u: "deserializeIlpFulfillment reference_codec IlpAbsent = Inl PacketError"
    "deserializeIlpFulfillment reference_codec (IlpBuffer []) = Inl PacketError"
    by (simp_all add: reference_codec_def reference_deserializeIlpFulfillment_def)
  show ?thesis
    by (simp add: e alice_pending_promise handleOutgoingFulfill_unreadable [OF e] u)
qed

text \<open>
  Claim C4, amended. A fulfillment event whose transfer identifier has an entry with a
  pending promise, and whose envelope the codec can deserialise, resolves that promise with
  exactly \<^verbatim>\<open>{fulfillment, data}\<close>: the fulfillment of the event, and the base64-decoded
  payload of the envelope the event carries. And a promise becomes resolved only by such an
  event: whatever operation resolves a promise is a fulfillment event whose identifier has
  that promise as its entry, and the value is the one computed from that event.
\<close>

theorem fulfill_resolves_with_decoded_payload:
  "(transfers s (lpi1_id t) = Some p \<and> promise_at s p = Some Pending \<and>
    deserializeIlpFulfillment c ilp = Inr d \<longrightarrow>
      fst (handleOutgoingFulfill c t f ilp s) = None \<and>
      promise_at (snd (handleOutgoingFulfill c t f ilp s)) p =
        Some (Resolved \<lparr>fulfillment = f, fulfill_data = from_base64 d\<rparr>)) \<and>
   (promise_at (step c old op s) q = Some (Resolved r) \<and> promise_at s q \<noteq> Some (Resolved r) \<longrightarrow>
      (\<exists>t' f' ilp' d'. op = OutgoingFulfill t' f' ilp' \<and> transfers s (lpi1_id t') = Some q \<and>
         promise_at s q = Some Pending \<and> deserializeIlpFulfillment c ilp' = Inr d' \<and>
         r = \<lparr>fulfillment = f', fulfill_data = from_base64 d'\<rparr>))"
proof (intro conjI impI)
  assume "transfers s (lpi1_id t) = Some p \<and> promise_at s p = Some Pending \<and>
    deserializeIlpFulfillment c ilp = Inr d"
  then show "fst (handleOutgoingFulfill c t f ilp s) = None"
    and "promise_at (snd (handleOutgoingFulfill c t f ilp s)) p =
        Some (Resolved \<lparr>fulfillment = f, fulfill_data = from_base64 d\<rparr>)"
    by (simp_all add: handleOutgoingFulfill_Entry promise_at_settle)
next
  assume "promise_at (step c old op s) q = Some (Resolved r) \<and> promise_at s q \<noteq> Some (Resolved r)"
  then show "\<exists>t' f' ilp' d'. op = OutgoingFulfill t' f' ilp' \<and> transfers s (lpi1_id t') = Some q \<and>
         promise_at s q = Some Pending \<and> deserializeIlpFulfillment c ilp' = Inr d' \<and>
         r = \<lparr>fulfillment = f', fulfill_data = from_base64 d'\<rparr>"
    using resolved_only_by_fulfill [of c old op s q r] by blast
qed

text \<open>The fulfillment of Alice's pending transfer with the payload \<^verbatim>\<open>OK\<close>.\<close>

theorem fulfill_resolves_with_decoded_payload_witness:
  "promise_at (step reference_codec usd_plugin (OutgoingFulfill alice_lpi1 (JStr ''preimage'') ok_envelope) alice_pending) 0 =
     Some (Resolved \<lparr>fulfillment = JStr ''preimage'', fulfill_data = [79, 75]\<rparr>) \<and>
   (\<exists>t' f' ilp' d'.
      OutgoingFulfill alice_lpi1 (JStr ''preimage'') ok_envelope = OutgoingFulfill t' f' ilp' \<and>
      transfers alice_pending (lpi1_id t') = Some 0 \<and> promise_at alice_pending 0 = Some Pending \<and>
      deserializeIlpFulfillment reference_codec ilp' = Inr d' \<and>
      \<lparr>fulfillment = JStr ''preimage'', fulfill_data = [79, 75]\<rparr> =
        \<lparr>fulfillment = f', fulfill_data = from_base64 d'\<rparr>)"
proof -
  have h: "transfers alice_pending (lpi1_id alice_lpi1) = Some 0 \<and>
           promise_at alice_pending 0 = Some Pending \<and>
           deserializeIlpFulfillment reference_codec ok_envelope = Inr (toString_base64 [79, 75])"
    by (simp only: alice_pending_state alice_lpi1_id alice_pending_promise ok_envelope_reads) simp
  have r: "promise_at (snd (handleOutgoingFulfill reference_codec alice_lpi1 (JStr ''preimage'') ok_envelope alice_pending)) 0 =
        Some (Resolved \<lparr>fulfillment = JStr ''preimage'', fulfill_data = from_base64 (toString_base64 [79, 75])\<rparr>)"
    using h fulfill_resolves_with_decoded_payload
      [of alice_pending alice_lpi1 0 reference_codec ok_envelope "toString_base64 [79, 75]" "JStr ''preimage''"]
    by blast
  have r': "promise_at (step reference_codec usd_plugin (OutgoingFulfill alice_lpi1 (JStr ''preimage'') ok_envelope) alice_pending) 0 =
     Some (Resolved \<lparr>fulfillment = JStr ''preimage'', fulfill_data = [79, 75]\<rparr>)"
    using r by (simp only: base64_roundtrip step.simps)
  have n: "promise_at alice_pending 0 \<noteq> Some (Resolved \<lparr>fulfillment = JStr ''preimage'', fulfill_data = [79, 75]\<rparr>)"
    by (simp add: alice_pending_promise)
  show ?thesis
    using r' n fulfill_resolves_with_decoded_payload
      [of alice_pending alice_lpi1 0 reference_codec ok_envelope "toString_base64 [79, 75]" "JStr ''preimage''"
          usd_plugin "OutgoingFulfill alice_lpi1 (JStr ''preimage'') ok_envelope" 0
          "\<lparr>fulfillment = JStr ''preimage'', fulfill_data = [79, 75]\<rparr>"]
    by blast
qed

text \<open>
  Claim C8, as stated: \<^verbatim>\<open>registerTransferHandler\<close> fails with the invalid-fields error
  whenever the handler supplied is not callable. It does not while a handler is registered:
  the test for a registered handler comes first, and the error is the already-registered
  one.
\<close>

theorem invalid_handler_while_registered_counterexample:
  "\<not> is_function (NotFunction (JNum 42)) \<and>
   fst (registerTransferHandler (NotFunction (JNum 42))
          (snd (registerTransferHandler (Function echo_handler) new_Plugin))) =
     Some (TransferHandlerAlreadyRegisteredError ''requestHandler is already registered'') \<and>
   fst (registerTransferHandler (NotFunction (JNum 42))
          (snd (registerTransferHandler (Function echo_handler) new_Plugin))) \<noteq>
     Some (InvalidFieldsError ''requestHandler must be a function'')"
  by (simp add: registerTransferHandler_def new_Plugin_def)

text \<open>
  Claim C8, amended. \<^verbatim>\<open>registerTransferHandler\<close> fails with the already-registered error
  whenever a handler is registered (in particular after a registration that succeeded), and
  with the invalid-fields error whenever no handler is registered and the handler supplied
  is not callable. \<^verbatim>\<open>deregisterTransferHandler\<close> clears the slot whatever it holds and is
  idempotent, and after it the registration of a callable handler succeeds.
\<close>

theorem registration_errors_in_order:
  "(truthy_handler (transferHandler s) \<longrightarrow>
      registerTransferHandler h s =
        (Some (TransferHandlerAlreadyRegisteredError ''requestHandler is already registered''), s)) \<and>
   (fst (registerTransferHandler h0 s) = None \<longrightarrow>
      fst (registerTransferHandler h (snd (registerTransferHandler h0 s))) =
        Some (TransferHandlerAlreadyRegisteredError ''requestHandler is already registered'')) \<and>
   (\<not> truthy_handler (transferHandler s) \<and> \<not> is_function h \<longrightarrow>
      registerTransferHandler h s = (Some (InvalidFieldsError ''requestHandler must be a function''), s)) \<and>
   transferHandler (deregisterTransferHandler s) = NotFunction JNull \<and>
   deregisterTransferHandler (deregisterTransferHandler s) = deregisterTransferHandler s \<and>
   (is_function h \<longrightarrow>
      registerTransferHandler h (deregisterTransferHandler s) =
        (None, (deregisterTransferHandler s)\<lparr>transferHandler := h\<rparr>))"
proof (intro conjI impI)
  assume "fst (registerTransferHandler h0 s) = None"
  then have "truthy_handler (transferHandler (snd (registerTransferHandler h0 s)))"
    by (cases h0) (simp_all add: registerTransferHandler_def split: if_splits)
  then show "fst (registerTransferHandler h (snd (registerTransferHandler h0 s))) =
        Some (TransferHandlerAlreadyRegisteredError ''requestHandler is already registered'')"
    by (simp add: registerTransferHandler_def)
qed (simp_all add: registerTransferHandler_def deregisterTransferHandler_def)

text \<open>
  A first registration, a second one refused, a number refused as a handler, and a
  registration after deregistration.
\<close>

theorem registration_errors_in_order_witness:
  "fst (registerTransferHandler (Function echo_handler) new_Plugin) = None \<and>
   fst (registerTransferHandler (Function refusing_handler)
          (snd (registerTransferHandler (Function echo_handler) new_Plugin))) =
     Some (TransferHandlerAlreadyRegisteredError ''requestHandler is already registered'') \<and>
   registerTransferHandler (NotFunction (JNum 42)) new_Plugin =
     (Some (InvalidFieldsError ''requestHandler must be a function''), new_Plugin) \<and>
   fst (registerTransferHandler (Function refusing_handler)
          (deregisterTransferHandler (snd (registerTransferHandler (Function echo_handler) new_Plugin)))) = None"
proof -
  have a: "fst (registerTransferHandler (Function echo_handler) new_Plugin) = None"
    by (simp add: registerTransferHandler_def new_Plugin_def)
  have b: "\<not> truthy_handler (transferHandler new_Plugin) \<and> \<not> is_function (NotFunction (JNum 42))"
    by (simp add: new_Plugin_def)
  have c: "is_function (Function refusing_handler)" by simp
  show ?thesis
    using a b c
      registration_errors_in_order [of new_Plugin "NotFunction (JNum 42)" "Function echo_handler"]
      registration_errors_in_order [of new_Plugin "Function refusing_handler" "Function echo_handler"]
      registration_errors_in_order [of "snd (registerTransferHandler (Function echo_handler) new_Plugin)"
         "Function refusing_handler" "Function echo_handler"]
    by simp
qed




text \<open>
  Claim C7, as stated: for every destination address the envelope decodes to the original
  address. The library reads the account as ASCII, so a character above 127 comes back
  with its high bit cleared: the address \<^verbatim>\<open>g.usd.\<close> followed by \<^verbatim>\<open>e\<close> with an acute accent
  (code 233) is decoded as \<^verbatim>\<open>g.usd.i\<close>.
\<close>

theorem accented_destination_counterexample:
  "incoming_transfer IlpPacket
     (lpi1Transfer_of IlpPacket (getInfo usd_plugin) ''id1'' (''g.usd.'' @ [CHR 0xE9]) accented_request) =
     Inr (accented_request\<lparr>destination := ''g.usd.i''\<rparr>) \<and>
   destination accented_request \<noteq> ''g.usd.i''"
proof -
  let ?p = "\<lparr>account = ''g.usd.'' @ [CHR 0xE9], payment_amount = ''0'',
             payment_data = toString_base64 [72, 105]\<rparr>"
  have "IlpPacket_deserializeIlpPayment (IlpPacket_serializeIlpPayment ?p) =
     Inr \<lparr>account = ascii_read (ascii_write (account ?p)),
          payment_amount = decimal (uint_of (uint_bytes 8 (Long_fromString (payment_amount ?p)))),
          payment_data = base64url (from_base64 (payment_data ?p))\<rparr>"
    by (intro IlpPacket_payment_roundtrip)
       (simp_all add: base64_roundtrip del: toString_base64.simps)
  moreover have "ascii_read (ascii_write (''g.usd.'' @ [CHR 0xE9])) = ''g.usd.i''"
  proof -
    have "(105::nat) = of_char CHR ''i''" by simp
    then have i: "char_of (105::nat) = CHR ''i''" by (simp only: char_of_char)
    have "ascii_read (ascii_write [CHR 0xE9]) = ''i''"
      by (simp add: ascii_read_def ascii_write_def unat_of_char i)
    moreover have "ascii_read (ascii_write ''g.usd.'') = ''g.usd.''"
      by (rule ascii_read_write) simp
    ultimately show ?thesis
      by (simp add: ascii_read_def ascii_write_def)
  qed
  ultimately have "IlpPacket_deserializeIlpPayment (IlpPacket_serializeIlpPayment ?p) =
     Inr \<lparr>account = ''g.usd.i'',
          payment_amount = decimal (uint_of (uint_bytes 8 (Long_fromString ''0''))),
          payment_data = base64url [72, 105]\<rparr>"
    by (simp only: ilpPayment.simps base64_roundtrip)
  then show ?thesis
    by (simp add: incoming_transfer_def lpi1Transfer_of_def outgoing_ilp_def Buffer_from_def
          IlpPacket_def accented_request_def alice_request_def base64url_roundtrip
          del: toString_base64.simps)
qed

text \<open>
  Claim C7, amended. For every destination address of ASCII characters and every payload,
  each of a length a \<^verbatim>\<open>Buffer\<close> can have (below \<open>2\<^sup>3\<^sup>1\<close>): the envelope that \<^verbatim>\<open>sendTransfer\<close>
  encodes, decoded as \<^verbatim>\<open>_handleIncomingPrepare\<close> decodes it, yields the original destination
  and the original payload bytes.
\<close>

theorem ascii_envelope_roundtrip:
  "(\<forall>ch \<in> set (destination t). of_char ch < (128::nat)) \<and>
   length (destination t) < 2 ^ 31 \<and> length (data t) < 2 ^ 31 \<longrightarrow>
     (\<exists>t'. incoming_transfer IlpPacket (lpi1Transfer_of IlpPacket i uid to t) = Inr t' \<and>
        destination t' = destination t \<and> data t' = data t)"
proof
  assume a: "(\<forall>ch \<in> set (destination t). of_char ch < (128::nat)) \<and>
   length (destination t) < 2 ^ 31 \<and> length (data t) < 2 ^ 31"
  let ?p = "\<lparr>account = destination t, payment_amount = ''0'',
             payment_data = toString_base64 (data t)\<rparr>"
  have "IlpPacket_deserializeIlpPayment (IlpPacket_serializeIlpPayment ?p) =
     Inr \<lparr>account = ascii_read (ascii_write (account ?p)),
          payment_amount = decimal (uint_of (uint_bytes 8 (Long_fromString (payment_amount ?p)))),
          payment_data = base64url (from_base64 (payment_data ?p))\<rparr>"
    using a by (intro IlpPacket_payment_roundtrip) (simp_all add: base64_roundtrip)
  moreover have "ascii_read (ascii_write (destination t)) = destination t"
    using a by (simp add: ascii_read_write)
  ultimately show "\<exists>t'. incoming_transfer IlpPacket (lpi1Transfer_of IlpPacket i uid to t) = Inr t' \<and>
        destination t' = destination t \<and> data t' = data t"
    by (simp add: incoming_transfer_def lpi1Transfer_of_def outgoing_ilp_def Buffer_from_def
          IlpPacket_def base64_roundtrip base64url_roundtrip)
qed

text \<open>The round trip of Alice's request.\<close>

theorem ascii_envelope_roundtrip_witness:
  "\<exists>t'. incoming_transfer IlpPacket
          (lpi1Transfer_of IlpPacket (getInfo usd_plugin) ''id1'' ''g.usd.connector1'' alice_request) =
        Inr t' \<and>
      destination t' = ''g.usd.connector1.alice'' \<and> data t' = [72, 105]"
proof -
  have "(\<forall>ch \<in> set (destination alice_request). of_char ch < (128::nat)) \<and>
        length (destination alice_request) < 2 ^ 31 \<and> length (data alice_request) < 2 ^ 31"
    by (simp add: alice_request_def)
  then show ?thesis
    using ascii_envelope_roundtrip
      [of alice_request "getInfo usd_plugin" "''id1''" "''g.usd.connector1''"]
    by (simp add: alice_request_def)
qed

text \<open>
  Claim C1, at Alice's request. \<^verbatim>\<open>sendTransfer\<close> builds the record and stores the entry under
  the generated identifier, but line 110 then calls \<^verbatim>\<open>sendTransfer\<close> on the request, not on
  the wrapped plugin. A request has no such method: the returned promise is rejected with a
  \<^verbatim>\<open>TypeError\<close> and no call reaches the wrapped plugin. On an object that has the method,
  the record goes to that method.
\<close>

theorem sendTransfer_calls_the_request_not_the_plugin:
  "fst (sendTransfer reference_codec usd_plugin ''id1'' alice_request new_Plugin) = Inr 0 \<and>
   transfers (snd (sendTransfer reference_codec usd_plugin ''id1'' alice_request new_Plugin)) ''id1'' = Some 0 \<and>
   promise_at (snd (sendTransfer reference_codec usd_plugin ''id1'' alice_request new_Plugin)) 0 =
     Some (Rejected (JErr TypeError)) \<and>
   calls (snd (sendTransfer reference_codec usd_plugin ''id1'' alice_request new_Plugin)) = [] \<and>
   calls alice_pending = [Transfer_sendTransfer alice_lpi1]"
proof -
  have "sendTransfer reference_codec usd_plugin ''id1'' alice_request new_Plugin =
          (Inr 0, settle 0 (Reject (JErr TypeError))
             (new_Plugin\<lparr>promises := [Pending], transfers := [''id1'' \<mapsto> 0]\<rparr>))"
    unfolding sendTransfer_def
    by (simp add: alice_to Let_def new_Plugin_def) (simp add: alice_request_def)
  moreover have "calls alice_pending = [Transfer_sendTransfer alice_lpi1]"
    unfolding alice_pending_def sendTransfer_def
    by (simp add: alice_to Let_def alice_request_with_method_def accepting_send_def called_def
          new_Plugin_def alice_lpi1_def lpi1Transfer_of_def outgoing_ilp_def)
  ultimately show ?thesis
    by (simp add: settle_frame promise_at_settle) (simp add: promise_at_def new_Plugin_def)
qed

text \<open>
  Claim C10. No operation of the adapter removes an entry from the correlation table: a key
  that has an entry has one after every operation. \<^verbatim>\<open>sendTransfer\<close>, when it accepts a
  request, only adds the entry of the generated identifier, and the fulfillment, rejection
  and cancellation handlers leave the table as it is. So a second terminal event with the
  same identifier finds the entry again and calls a continuation again (the log of
  settlements grows by one more call), and the promise keeps the outcome of the first
  event, since a settled promise ignores further settlement.
\<close>

theorem entries_are_never_removed:
  "(transfers s k = Some q \<longrightarrow> transfers (step c old op s) k \<noteq> None) \<and>
   (fst (sendTransfer c old uid t s) = Inr p \<longrightarrow>
      transfers (snd (sendTransfer c old uid t s)) = (transfers s)(uid \<mapsto> p)) \<and>
   transfers (snd (handleOutgoingFulfill c tr f ilp s)) = transfers s \<and>
   transfers (snd (handleOutgoingReject tr reason s)) = transfers s \<and>
   transfers (snd (handleOutgoingCancel tr reason s)) = transfers s \<and>
   (transfers s (lpi1_id tr) = Some p \<and> promise_at s p = Some Pending \<and>
    deserializeIlpFulfillment c ilp = Inr d \<longrightarrow>
      (let s1 = snd (handleOutgoingFulfill c tr f ilp s);
           s2 = snd (handleOutgoingReject tr reason s1);
           s3 = snd (handleOutgoingCancel tr reason s1);
           s4 = snd (handleOutgoingFulfill c tr f' ilp s1);
           r = \<lparr>fulfillment = f, fulfill_data = from_base64 d\<rparr>;
           r' = \<lparr>fulfillment = f', fulfill_data = from_base64 d\<rparr>
       in transfers s1 (lpi1_id tr) = Some p \<and>
          settlements s2 = settlements s @ [(p, Resolve r), (p, Reject reason)] \<and>
          settlements s3 = settlements s @ [(p, Resolve r), (p, Reject reason)] \<and>
          settlements s4 = settlements s @ [(p, Resolve r), (p, Resolve r')] \<and>
          promises s2 = promises s1 \<and> promises s3 = promises s1 \<and> promises s4 = promises s1 \<and>
          promise_at s1 p = Some (Resolved r))) \<and>
   (transfers s (lpi1_id tr) = Some p \<and> promise_at s p = Some Pending \<longrightarrow>
      (let s1 = snd (handleOutgoingReject tr reason s);
           s2 = snd (handleOutgoingCancel tr reason' s1)
       in transfers s1 (lpi1_id tr) = Some p \<and>
          settlements s2 = settlements s @ [(p, Reject reason), (p, Reject reason')] \<and>
          promises s2 = promises s1 \<and>
          promise_at s1 p = Some (Rejected reason)))"
proof (intro conjI impI)
  assume "transfers s k = Some q"
  then show "transfers (step c old op s) k \<noteq> None" by (rule step_keeps_entries)
next
  assume "fst (sendTransfer c old uid t s) = Inr p"
  then show "transfers (snd (sendTransfer c old uid t s)) = (transfers s)(uid \<mapsto> p)"
    using sendTransfer_accepted_transfers by blast
next
  show "transfers (snd (handleOutgoingFulfill c tr f ilp s)) = transfers s"
    by (rule handleOutgoingFulfill_transfers)
next
  show "transfers (snd (handleOutgoingReject tr reason s)) = transfers s"
    by (rule handleOutgoingReject_transfers)
next
  show "transfers (snd (handleOutgoingCancel tr reason s)) = transfers s"
    by (rule handleOutgoingCancel_transfers)
next
  assume a: "transfers s (lpi1_id tr) = Some p \<and> promise_at s p = Some Pending \<and>
    deserializeIlpFulfillment c ilp = Inr d"
  let ?r = "\<lparr>fulfillment = f, fulfill_data = from_base64 d\<rparr>"
  let ?r' = "\<lparr>fulfillment = f', fulfill_data = from_base64 d\<rparr>"
  have s1: "snd (handleOutgoingFulfill c tr f ilp s) = settle p (Resolve ?r) s"
    using a by (simp add: handleOutgoingFulfill_Entry)
  have t1: "transfers (settle p (Resolve ?r) s) (lpi1_id tr) = Some p"
    using a by (simp add: settle_frame)
  have s2: "snd (handleOutgoingReject tr reason (settle p (Resolve ?r) s)) =
              settle p (Reject reason) (settle p (Resolve ?r) s)"
    using t1 by (simp add: handleOutgoingReject_Entry)
  have s3: "snd (handleOutgoingCancel tr reason (settle p (Resolve ?r) s)) =
              settle p (Reject reason) (settle p (Resolve ?r) s)"
    using t1 by (simp add: handleOutgoingCancel_Entry)
  have s4: "snd (handleOutgoingFulfill c tr f' ilp (settle p (Resolve ?r) s)) =
              settle p (Resolve ?r') (settle p (Resolve ?r) s)"
    using t1 a by (simp add: handleOutgoingFulfill_Entry)
  from a have pend: "promise_at s p = Some Pending" by simp
  show "let s1 = snd (handleOutgoingFulfill c tr f ilp s);
           s2 = snd (handleOutgoingReject tr reason s1);
           s3 = snd (handleOutgoingCancel tr reason s1);
           s4 = snd (handleOutgoingFulfill c tr f' ilp s1);
           r = \<lparr>fulfillment = f, fulfill_data = from_base64 d\<rparr>;
           r' = \<lparr>fulfillment = f', fulfill_data = from_base64 d\<rparr>
       in transfers s1 (lpi1_id tr) = Some p \<and>
          settlements s2 = settlements s @ [(p, Resolve r), (p, Reject reason)] \<and>
          settlements s3 = settlements s @ [(p, Resolve r), (p, Reject reason)] \<and>
          settlements s4 = settlements s @ [(p, Resolve r), (p, Resolve r')] \<and>
          promises s2 = promises s1 \<and> promises s3 = promises s1 \<and> promises s4 = promises s1 \<and>
          promise_at s1 p = Some (Resolved r)"
    unfolding Let_def s1 s2 s3 s4
    using settle_twice [OF pend, of "Reject reason" "Resolve ?r"]
      settle_twice [OF pend, of "Resolve ?r'" "Resolve ?r"] t1 pend
    by (simp add: promise_at_settle)
next
  assume a: "transfers s (lpi1_id tr) = Some p \<and> promise_at s p = Some Pending"
  have s1: "snd (handleOutgoingReject tr reason s) = settle p (Reject reason) s"
    using a by (simp add: handleOutgoingReject_Entry)
  have t1: "transfers (settle p (Reject reason) s) (lpi1_id tr) = Some p"
    using a by (simp add: settle_frame)
  have s2: "snd (handleOutgoingCancel tr reason' (settle p (Reject reason) s)) =
              settle p (Reject reason') (settle p (Reject reason) s)"
    using t1 by (simp add: handleOutgoingCancel_Entry)
  from a have pend: "promise_at s p = Some Pending" by simp
  show "let s1 = snd (handleOutgoingReject tr reason s);
           s2 = snd (handleOutgoingCancel tr reason' s1)
       in transfers s1 (lpi1_id tr) = Some p \<and>
          settlements s2 = settlements s @ [(p, Reject reason), (p, Reject reason')] \<and>
          promises s2 = promises s1 \<and>
          promise_at s1 p = Some (Rejected reason)"
    unfolding Let_def s1 s2
    using settle_twice [OF pend, of "Reject reason'" "Reject reason"] t1 pend
    by (simp add: promise_at_settle)
qed

text \<open>
  At the adapter that holds Alice's pending transfer: a rejection keeps the entry; a second
  request adds an entry; a rejection after the fulfillment, and a cancellation after a
  rejection, are logged and change no promise.
\<close>

theorem entries_are_never_removed_witness:
  "transfers (step reference_codec usd_plugin (OutgoingReject alice_lpi1 (JStr ''late'')) alice_pending) ''id1'' \<noteq> None \<and>
   transfers (snd (sendTransfer reference_codec usd_plugin ''id2'' alice_request alice_pending)) =
     (transfers alice_pending)(''id2'' \<mapsto> 1) \<and>
   settlements (snd (handleOutgoingReject alice_lpi1 (JStr ''late'')
       (snd (handleOutgoingFulfill reference_codec alice_lpi1 (JStr ''preimage'') ok_envelope alice_pending)))) =
     [(0, Resolve \<lparr>fulfillment = JStr ''preimage'', fulfill_data = [79, 75]\<rparr>), (0, Reject (JStr ''late''))] \<and>
   promise_at (snd (handleOutgoingReject alice_lpi1 (JStr ''late'')
       (snd (handleOutgoingFulfill reference_codec alice_lpi1 (JStr ''preimage'') ok_envelope alice_pending)))) 0 =
     Some (Resolved \<lparr>fulfillment = JStr ''preimage'', fulfill_data = [79, 75]\<rparr>) \<and>
   settlements (snd (handleOutgoingCancel alice_lpi1 (JStr ''expired'')
       (snd (handleOutgoingReject alice_lpi1 (JStr ''late'') alice_pending)))) =
     [(0, Reject (JStr ''late'')), (0, Reject (JStr ''expired''))]"
proof -
  let ?r = "\<lparr>fulfillment = JStr ''preimage'', fulfill_data = from_base64 (toString_base64 [79, 75])\<rparr>"
  have h1: "transfers alice_pending ''id1'' = Some 0"
    by (simp add: alice_pending_state)
  have h2: "fst (sendTransfer reference_codec usd_plugin ''id2'' alice_request alice_pending) = Inr 1"
    unfolding sendTransfer_def
    by (simp add: alice_to Let_def alice_pending_state) (simp add: alice_request_def)
  have h3: "transfers alice_pending (lpi1_id alice_lpi1) = Some 0 \<and>
            promise_at alice_pending 0 = Some Pending \<and>
            deserializeIlpFulfillment reference_codec ok_envelope = Inr (toString_base64 [79, 75])"
    by (simp only: alice_pending_state alice_lpi1_id alice_pending_promise ok_envelope_reads) simp
  note inst = entries_are_never_removed
    [where s = alice_pending and k = "''id1''" and q = 0 and c = reference_codec and old = usd_plugin
       and op = "OutgoingReject alice_lpi1 (JStr ''late'')" and tr = alice_lpi1
       and f = "JStr ''preimage''" and f' = "JStr ''preimage''" and ilp = ok_envelope
       and d = "toString_base64 [79, 75]" and reason = "JStr ''late''" and reason' = "JStr ''expired''"
       and uid = "''id2''" and t = alice_request]
  have a: "transfers (step reference_codec usd_plugin (OutgoingReject alice_lpi1 (JStr ''late'')) alice_pending) ''id1'' \<noteq> None"
    using h1 inst [where p = 0] by blast
  have b: "transfers (snd (sendTransfer reference_codec usd_plugin ''id2'' alice_request alice_pending)) =
     (transfers alice_pending)(''id2'' \<mapsto> 1)"
    using h2 inst [where p = 1] by blast
  have c: "settlements (snd (handleOutgoingReject alice_lpi1 (JStr ''late'')
       (snd (handleOutgoingFulfill reference_codec alice_lpi1 (JStr ''preimage'') ok_envelope alice_pending)))) =
     settlements alice_pending @ [(0, Resolve ?r), (0, Reject (JStr ''late''))]"
    and d: "promises (snd (handleOutgoingReject alice_lpi1 (JStr ''late'')
       (snd (handleOutgoingFulfill reference_codec alice_lpi1 (JStr ''preimage'') ok_envelope alice_pending)))) =
       promises (snd (handleOutgoingFulfill reference_codec alice_lpi1 (JStr ''preimage'') ok_envelope alice_pending))"
    and e: "promise_at (snd (handleOutgoingFulfill reference_codec alice_lpi1 (JStr ''preimage'') ok_envelope alice_pending)) 0 =
       Some (Resolved ?r)"
    and f: "settlements (snd (handleOutgoingCancel alice_lpi1 (JStr ''expired'')
       (snd (handleOutgoingReject alice_lpi1 (JStr ''late'') alice_pending)))) =
     settlements alice_pending @ [(0, Reject (JStr ''late'')), (0, Reject (JStr ''expired''))]"
    using h3 inst [where p = 0] unfolding Let_def by blast+
  have g: "promise_at (snd (handleOutgoingReject alice_lpi1 (JStr ''late'')
       (snd (handleOutgoingFulfill reference_codec alice_lpi1 (JStr ''preimage'') ok_envelope alice_pending)))) 0 =
       Some (Resolved ?r)"
    using e promise_at_eq [OF d, of 0] by simp
  show ?thesis
    using a b c f g by (simp only: base64_roundtrip alice_pending_state append_Nil) simp
qed

end
